theory Spec2Isabelle
  imports Main "HOL-Library.Char_ord" "HOL-Library.List_Lexorder" "HOL-Library.AList"
begin

section \<open>Strings, errors and maps\<close>

text \<open>
  A Go \<^verbatim>\<open>string\<close> is a sequence of bytes: \<^typ>\<open>string\<close>. An \<^verbatim>\<open>error\<close> value is
  only ever printed or wrapped by this program, so it is modelled by its message.
  A \<^verbatim>\<open>map[string]string\<close> is an association list read through \<^const>\<open>map_of\<close>;
  \<^verbatim>\<open>m[k] = v\<close> is \<^const>\<open>AList.update\<close>, and \<^verbatim>\<open>m[k]\<close> without the \<^verbatim>\<open>ok\<close> result
  is \<open>index m k\<close>, the empty string when the key is missing.
\<close>

type_synonym error = string

type_synonym strmap = "(string \<times> string) list"

definition index :: "strmap \<Rightarrow> string \<Rightarrow> string" where
  "index m k = (case map_of m k of None \<Rightarrow> [] | Some v \<Rightarrow> v)"

section \<open>The docker-registry codec\<close>

subsection \<open>Standard base64\<close>

text \<open>
  \<^verbatim>\<open>base64.StdEncoding.EncodeToString\<close>: the alphabet of RFC 4648 with \<^verbatim>\<open>=\<close> padding,
  three bytes to four digits.
\<close>

definition encodeStd :: string where
  "encodeStd = ''ABCDEFGHIJKLMNOPQRSTUVWXYZabcdefghijklmnopqrstuvwxyz0123456789+/''"

definition b64 :: "nat \<Rightarrow> char" where
  "b64 n = encodeStd ! (n mod 64)"

fun encode_groups :: "nat list \<Rightarrow> string" where
  "encode_groups [] = []"
| "encode_groups [a] = [b64 (a div 4), b64 ((a mod 4) * 16), CHR ''='', CHR ''='']"
| "encode_groups [a, b] =
     [b64 (a div 4), b64 ((a mod 4) * 16 + b div 16), b64 ((b mod 16) * 4), CHR ''='']"
| "encode_groups (a # b # c # rest) =
     [b64 (a div 4), b64 ((a mod 4) * 16 + b div 16),
      b64 ((b mod 16) * 4 + c div 64), b64 (c mod 64)] @ encode_groups rest"

definition EncodeToString :: "string \<Rightarrow> string" where
  "EncodeToString src = encode_groups (map of_char src)"

subsection \<open>The configuration document\<close>

text \<open>
  \<^verbatim>\<open>DockerAuth\<close> and \<^verbatim>\<open>DockerConfig\<close> with their field tags. \<^verbatim>\<open>Auths\<close> is a Go map; its
  entries are listed once per key.
\<close>

record DockerAuth =
  Username :: string
  Password :: string
  Email :: string
  Auth :: string

record DockerConfig =
  Auths :: "(string \<times> DockerAuth) list"

text \<open>
  \<^verbatim>\<open>json.Marshal\<close> walks the value by its field tags and writes the text of the
  document. The walk is fixed by the declarations above: the members \<^verbatim>\<open>username\<close>,
  \<^verbatim>\<open>password\<close>, \<^verbatim>\<open>email\<close> (tagged \<^verbatim>\<open>omitempty\<close>: left out when the string is
  empty) and \<^verbatim>\<open>auth\<close>, in the order of the fields, and the map under \<^verbatim>\<open>auths\<close> in
  ascending key order. The text layer of the library (quoting, escaping) is a
  parameter \<open>encode\<close> of the functions below, and so is \<^verbatim>\<open>json.Unmarshal\<close>, which
  takes the text to a \<^typ>\<open>DockerConfig\<close> or fails. The encoder and the decoder of the
  library itself are \<open>Marshal\<close> and \<open>Unmarshal\<close> further down.
\<close>

datatype json = JString string | JObject "(string \<times> json) list"


definition json_DockerAuth :: "DockerAuth \<Rightarrow> json" where
  "json_DockerAuth a =
     JObject ([(''username'', JString (Username a)), (''password'', JString (Password a))]
              @ (if Email a = [] then [] else [(''email'', JString (Email a))])
              @ [(''auth'', JString (Auth a))])"

definition json_DockerConfig :: "DockerConfig \<Rightarrow> json" where
  "json_DockerConfig c =
     JObject [(''auths'', JObject (map (\<lambda>(s, a). (s, json_DockerAuth a)) (sort_key fst (Auths c))))]"

subsection \<open>Canonical entries to wire text\<close>

definition missing :: "strmap \<Rightarrow> string \<Rightarrow> bool" where
  "missing values k = (case map_of values k of None \<Rightarrow> True | Some v \<Rightarrow> v = [])"

definition required :: "string \<Rightarrow> error" where
  "required k = k @ '' is required for docker-registry secrets''"

definition docker_config :: "strmap \<Rightarrow> DockerConfig" where
  "docker_config values =
     (let server = index values ''docker-server'';
          username = index values ''docker-username'';
          password = index values ''docker-password'';
          email = index values ''docker-email'';
          auth = EncodeToString (username @ '':'' @ password)
      in \<lparr>Auths = [(server, \<lparr>Username = username, Password = password,
                              Email = email, Auth = auth\<rparr>)]\<rparr>)"

definition BuildDockerConfigJSON :: "(json \<Rightarrow> error + string) \<Rightarrow> strmap \<Rightarrow> error + string" where
  "BuildDockerConfigJSON encode values =
     (if missing values ''docker-server'' then Inl (required ''docker-server'')
      else if missing values ''docker-username'' then Inl (required ''docker-username'')
      else if missing values ''docker-password'' then Inl (required ''docker-password'')
      else case encode (json_DockerConfig (docker_config values)) of
             Inl err \<Rightarrow> Inl (''failed to marshal docker config: '' @ err)
           | Inr jsonData \<Rightarrow> Inr jsonData)"

subsection \<open>Wire text to canonical entries\<close>

text \<open>
  The loop \<^verbatim>\<open>for s, a := range config.Auths { ...; break }\<close> takes the entry that the
  map iteration yields first. Go leaves the iteration order of a map to the runtime,
  which starts at a position of its own choosing: \<open>start\<close> is that position.
\<close>

definition range_first :: "nat \<Rightarrow> 'a list \<Rightarrow> 'a" where
  "range_first start xs = xs ! (start mod length xs)"

definition ParseDockerConfigJSON ::
  "(string \<Rightarrow> error + DockerConfig) \<Rightarrow> nat \<Rightarrow> string \<Rightarrow> error + strmap" where
  "ParseDockerConfigJSON unmarshal start jsonData =
     (case unmarshal jsonData of
        Inl err \<Rightarrow> Inl (''failed to unmarshal docker config: '' @ err)
      | Inr config \<Rightarrow>
          if length (Auths config) = 0 then Inl ''no auths found in docker config''
          else
            let (server, auth) = range_first start (Auths config);
                result = [(''docker-server'', server),
                          (''docker-username'', Username auth),
                          (''docker-password'', Password auth)]
            in Inr (if Email auth \<noteq> []
                    then AList.update ''docker-email'' (Email auth) result
                    else result))"

subsection \<open>The text that encoding/json writes\<close>

text \<open>
  \<^verbatim>\<open>utf8.DecodeRune\<close> reads the size of an encoding and the range of its second
  byte off the first byte, then checks the bytes that follow. \<open>utf8_len p\<close> is the
  size of the encoding of more than one byte at the head of \<open>p\<close>, and 0 when there
  is none.
\<close>

definition lead :: "char \<Rightarrow> (nat \<times> char \<times> char) option" where
  "lead b =
     (if CHR 0xC2 \<le> b \<and> b \<le> CHR 0xDF then Some (2, CHR 0x80, CHR 0xBF)
      else if b = CHR 0xE0 then Some (3, CHR 0xA0, CHR 0xBF)
      else if b = CHR 0xED then Some (3, CHR 0x80, CHR 0x9F)
      else if CHR 0xE1 \<le> b \<and> b \<le> CHR 0xEF then Some (3, CHR 0x80, CHR 0xBF)
      else if b = CHR 0xF0 then Some (4, CHR 0x90, CHR 0xBF)
      else if b = CHR 0xF4 then Some (4, CHR 0x80, CHR 0x8F)
      else if CHR 0xF1 \<le> b \<and> b \<le> CHR 0xF3 then Some (4, CHR 0x80, CHR 0xBF)
      else None)"

definition cont :: "char \<Rightarrow> bool" where
  "cont c \<longleftrightarrow> CHR 0x80 \<le> c \<and> c \<le> CHR 0xBF"

definition utf8_len :: "string \<Rightarrow> nat" where
  "utf8_len p =
     (case p of
        [] \<Rightarrow> 0
      | p0 # _ \<Rightarrow>
          (case lead p0 of
             None \<Rightarrow> 0
           | Some (sz, lo, hi) \<Rightarrow>
               if length p < sz then 0
               else if p ! 1 < lo \<or> hi < p ! 1 then 0
               else if sz \<le> 2 then 2
               else if \<not> cont (p ! 2) then 0
               else if sz \<le> 3 then 3
               else if \<not> cont (p ! 3) then 0
               else 4))"

text \<open>
  \<^verbatim>\<open>appendString\<close> with the escaping for HTML on, as \<^verbatim>\<open>json.Marshal\<close> calls it for strings and
  for the keys of a map. An ASCII byte is copied when it is in \<^verbatim>\<open>htmlSafeSet\<close> and
  escaped otherwise; a byte that starts no valid encoding is written as the escape of U+FFFD;
  U+2028 and U+2029 are escaped; any other encoding is copied.
\<close>

definition htmlSafe :: "char \<Rightarrow> bool" where
  "htmlSafe b \<longleftrightarrow>
     CHR 0x20 \<le> b \<and> b < CHR 0x80 \<and>
     b \<notin> set [CHR 0x22, CHR ''&'', CHR ''<'', CHR ''>'', CHR 0x5C]"

definition hex :: string where
  "hex = ''0123456789abcdef''"

definition escape_ascii :: "char \<Rightarrow> string" where
  "escape_ascii b =
     (if b = CHR 0x5C \<or> b = CHR 0x22 then [CHR 0x5C, b]
      else if b = CHR 0x08 then [CHR 0x5C, CHR ''b'']
      else if b = CHR 0x0C then [CHR 0x5C, CHR ''f'']
      else if b = CHR 0x0A then [CHR 0x5C, CHR ''n'']
      else if b = CHR 0x0D then [CHR 0x5C, CHR ''r'']
      else if b = CHR 0x09 then [CHR 0x5C, CHR ''t'']
      else [CHR 0x5C, CHR ''u'', CHR ''0'', CHR ''0'',
            hex ! (of_char b div 16), hex ! (of_char b mod 16)])"

function string_body :: "string \<Rightarrow> string" where
  "string_body [] = []"
| "string_body (b # src) =
     (if b < CHR 0x80
      then (if htmlSafe b then [b] else escape_ascii b) @ string_body src
      else if utf8_len (b # src) = 0
      then CHR 0x5C # ''ufffd'' @ string_body src
      else if take 3 (b # src) = [CHR 0xE2, CHR 0x80, CHR 0xA8]
      then CHR 0x5C # ''u2028'' @ string_body (drop 3 (b # src))
      else if take 3 (b # src) = [CHR 0xE2, CHR 0x80, CHR 0xA9]
      then CHR 0x5C # ''u2029'' @ string_body (drop 3 (b # src))
      else take (utf8_len (b # src)) (b # src)
           @ string_body (drop (utf8_len (b # src)) (b # src)))"
  by pat_completeness auto
termination
  by (relation "measure length") auto

declare string_body.simps [simp del]

definition appendString :: "string \<Rightarrow> string" where
  "appendString src = CHR 0x22 # string_body src @ [CHR 0x22]"

text \<open>
  The text of a document: objects without blanks, the members in the order
  given. \<^verbatim>\<open>json.Marshal\<close> returns no error for a \<^verbatim>\<open>DockerConfig\<close>.
\<close>

fun render :: "json \<Rightarrow> string"
  and render_members :: "(string \<times> json) list \<Rightarrow> string" where
  "render (JString s) = appendString s"
| "render (JObject ms) = ''{'' @ render_members ms @ ''}''"
| "render_members [] = []"
| "render_members ((k, v) # ms) =
     appendString k @ '':'' @ render v @ (if ms = [] then [] else '','' @ render_members ms)"

definition Marshal :: "json \<Rightarrow> error + string" where
  "Marshal j = Inr (render j)"

subsection \<open>The text that encoding/json reads\<close>

text \<open>
  \<^verbatim>\<open>json.Unmarshal\<close> first checks that the text is one JSON value, then walks it and
  stores what it finds in the fields of the target. The model has the same two
  passes: the text is cut into tokens and the tokens are read by the state machine
  of the scanner, which yields the value as a tree; the tree is then stored in a
  \<^typ>\<open>DockerConfig\<close>.
\<close>

datatype jvalue =
  VNull | VBool bool | VNumber string | VString string
| VArray "jvalue list" | VObject "(string \<times> jvalue) list"

datatype token = LBrace | RBrace | LBracket | RBracket | Colon | Comma | Lit jvalue

text \<open>
  A string literal, from the byte after the opening quote: the scanner refuses a
  control character and an unknown escape; \<^verbatim>\<open>unquote\<close> decodes the escapes and
  replaces a byte that starts no valid encoding by U+FFFD.
\<close>

definition EncodeRune :: "nat \<Rightarrow> string" where
  "EncodeRune r0 =
     (let r = (if 0xD800 \<le> r0 \<and> r0 < 0xE000 \<or> 0x10FFFF < r0 then 0xFFFD else r0)
      in if r < 0x80 then [char_of r]
         else if r < 0x800 then [char_of (0xC0 + r div 64), char_of (0x80 + r mod 64)]
         else if r < 0x10000
         then [char_of (0xE0 + r div 4096), char_of (0x80 + r div 64 mod 64),
               char_of (0x80 + r mod 64)]
         else [char_of (0xF0 + r div 262144), char_of (0x80 + r div 4096 mod 64),
               char_of (0x80 + r div 64 mod 64), char_of (0x80 + r mod 64)])"

definition hexval :: "char \<Rightarrow> nat option" where
  "hexval c =
     (if CHR ''0'' \<le> c \<and> c \<le> CHR ''9'' then Some (of_char c - 48)
      else if CHR ''a'' \<le> c \<and> c \<le> CHR ''f'' then Some (of_char c - 97 + 10)
      else if CHR ''A'' \<le> c \<and> c \<le> CHR ''F'' then Some (of_char c - 65 + 10)
      else None)"

fun getu4 :: "string \<Rightarrow> nat option" where
  "getu4 (c0 # c1 # h1 # h2 # h3 # h4 # _) =
     (if c0 = CHR 0x5C \<and> c1 = CHR ''u''
      then (case (hexval h1, hexval h2, hexval h3, hexval h4) of
              (Some a, Some b, Some c, Some d) \<Rightarrow> Some (((a * 16 + b) * 16 + c) * 16 + d)
            | _ \<Rightarrow> None)
      else None)"
| "getu4 _ = None"

definition IsSurrogate :: "nat \<Rightarrow> bool" where
  "IsSurrogate r \<longleftrightarrow> 0xD800 \<le> r \<and> r < 0xE000"

definition DecodeRune16 :: "nat \<Rightarrow> nat option \<Rightarrow> nat option" where
  "DecodeRune16 r1 next =
     (case next of
        Some r2 \<Rightarrow>
          if 0xD800 \<le> r1 \<and> r1 < 0xDC00 \<and> 0xDC00 \<le> r2 \<and> r2 < 0xE000
          then Some ((r1 - 0xD800) * 1024 + (r2 - 0xDC00) + 0x10000)
          else None
      | None \<Rightarrow> None)"

definition escaped :: "char \<Rightarrow> char option" where
  "escaped e =
     (if e = CHR 0x22 \<or> e = CHR 0x5C \<or> e = CHR ''/'' then Some e
      else if e = CHR ''b'' then Some (CHR 0x08)
      else if e = CHR ''f'' then Some (CHR 0x0C)
      else if e = CHR ''n'' then Some (CHR 0x0A)
      else if e = CHR ''r'' then Some (CHR 0x0D)
      else if e = CHR ''t'' then Some (CHR 0x09)
      else None)"

definition emit :: "string \<Rightarrow> (string \<times> string) option \<Rightarrow> (string \<times> string) option" where
  "emit p r = (case r of None \<Rightarrow> None | Some (s, rest) \<Rightarrow> Some (p @ s, rest))"

function scan_string :: "string \<Rightarrow> (string \<times> string) option" where
  "scan_string [] = None"
| "scan_string (c # s) =
     (if c = CHR 0x22 then Some ([], s)
      else if c = CHR 0x5C then
        (case s of
           [] \<Rightarrow> None
         | e # s1 \<Rightarrow>
             if e = CHR ''u'' then
               (case getu4 (c # s) of
                  None \<Rightarrow> None
                | Some rr \<Rightarrow>
                    if IsSurrogate rr then
                      (case DecodeRune16 rr (getu4 (drop 5 s)) of
                         Some pair \<Rightarrow> emit (EncodeRune pair) (scan_string (drop 11 s))
                       | None \<Rightarrow> emit (EncodeRune 0xFFFD) (scan_string (drop 5 s)))
                    else emit (EncodeRune rr) (scan_string (drop 5 s)))
             else (case escaped e of
                     None \<Rightarrow> None
                   | Some ch \<Rightarrow> emit [ch] (scan_string s1)))
      else if c < CHR 0x20 then None
      else if c < CHR 0x80 then emit [c] (scan_string s)
      else if utf8_len (c # s) = 0 then emit (EncodeRune 0xFFFD) (scan_string s)
      else emit (take (utf8_len (c # s)) (c # s))
                (scan_string (drop (utf8_len (c # s)) (c # s))))"
  by pat_completeness auto
termination
  by (relation "measure length") auto

declare scan_string.simps [simp del]

text \<open>
  A number: an optional minus sign, an integer part without a leading zero, an
  optional fraction and an optional exponent.
\<close>

definition digit :: "char \<Rightarrow> bool" where
  "digit c \<longleftrightarrow> CHR ''0'' \<le> c \<and> c \<le> CHR ''9''"

definition digits :: "string \<Rightarrow> (string \<times> string) option" where
  "digits s = (if takeWhile digit s = [] then None
               else Some (takeWhile digit s, dropWhile digit s))"

definition int_part :: "string \<Rightarrow> (string \<times> string) option" where
  "int_part s = (case s of
                   [] \<Rightarrow> None
                 | c # r \<Rightarrow> if c = CHR ''0'' then Some ([c], r) else digits s)"

definition frac_part :: "string \<Rightarrow> (string \<times> string) option" where
  "frac_part s = (case s of
                    [] \<Rightarrow> Some ([], s)
                  | c # r \<Rightarrow> if c = CHR ''.'' then emit [c] (digits r) else Some ([], s))"

definition exp_part :: "string \<Rightarrow> (string \<times> string) option" where
  "exp_part s =
     (case s of
        [] \<Rightarrow> Some ([], s)
      | c # r \<Rightarrow>
          if c = CHR ''e'' \<or> c = CHR ''E'' then
            (case r of
               [] \<Rightarrow> None
             | sg # r1 \<Rightarrow> if sg = CHR ''+'' \<or> sg = CHR ''-'' then emit [c, sg] (digits r1)
                          else emit [c] (digits r))
          else Some ([], s))"

definition scan_number :: "string \<Rightarrow> (string \<times> string) option" where
  "scan_number s =
     (case s of
        [] \<Rightarrow> None
      | c # r \<Rightarrow>
          (case int_part (if c = CHR ''-'' then r else s) of
             None \<Rightarrow> None
           | Some (i, s1) \<Rightarrow>
               (case frac_part s1 of
                  None \<Rightarrow> None
                | Some (f, s2) \<Rightarrow>
                    emit ((if c = CHR ''-'' then [c] else []) @ i @ f) (exp_part s2))))"

text \<open>The tokens of a text; blanks between them are skipped.\<close>

definition isSpace :: "char \<Rightarrow> bool" where
  "isSpace c \<longleftrightarrow> c = CHR '' '' \<or> c = CHR 0x09 \<or> c = CHR 0x0D \<or> c = CHR 0x0A"

definition tok :: "token \<Rightarrow> token list option \<Rightarrow> token list option" where
  "tok t r = (case r of None \<Rightarrow> None | Some ts \<Rightarrow> Some (t # ts))"

function lex :: "string \<Rightarrow> token list option" where
  "lex [] = Some []"
| "lex (c # s) =
     (if isSpace c then lex s
      else if c = CHR ''{'' then tok LBrace (lex s)
      else if c = CHR ''}'' then tok RBrace (lex s)
      else if c = CHR ''['' then tok LBracket (lex s)
      else if c = CHR '']'' then tok RBracket (lex s)
      else if c = CHR '':'' then tok Colon (lex s)
      else if c = CHR '','' then tok Comma (lex s)
      else if c = CHR 0x22 then
        (case scan_string s of
           None \<Rightarrow> None
         | Some (str, rest) \<Rightarrow> tok (Lit (VString str)) (lex rest))
      else if c = CHR ''-'' \<or> digit c then
        (case scan_number (c # s) of
           None \<Rightarrow> None
         | Some (n, rest) \<Rightarrow> tok (Lit (VNumber n)) (lex rest))
      else if take 4 (c # s) = ''true'' then tok (Lit (VBool True)) (lex (drop 4 (c # s)))
      else if take 5 (c # s) = ''false'' then tok (Lit (VBool False)) (lex (drop 5 (c # s)))
      else if take 4 (c # s) = ''null'' then tok (Lit VNull) (lex (drop 4 (c # s)))
      else None)"
  by pat_completeness auto
termination
proof (relation "measure length")
  have str: "length rest \<le> length s" if "scan_string s = Some (x, rest)" for s x rest
    using that
  proof (induction "length s" arbitrary: s x rest rule: less_induct)
    case less
    have IH: "\<And>t y. scan_string t = Some (y, rest) \<Longrightarrow> length t < length s
                \<Longrightarrow> length rest \<le> length t"
      using less.hyps by blast
    show ?case
    proof (cases s)
      case Nil
      then show ?thesis using less.prems by (simp add: scan_string.simps)
    next
      case (Cons c s')
      show ?thesis
        using less.prems unfolding Cons
        apply (simp only: scan_string.simps(2) [of c s'])
        apply (auto simp: emit_def Cons split: if_splits option.splits list.splits dest!: IH)
        done
    qed
  qed
  have dig: "length rest < length s" if "digits s = Some (x, rest)" for s x rest
  proof (cases s)
    case Nil
    then show ?thesis using that by (simp add: digits_def)
  next
    case (Cons c s')
    then show ?thesis
      using that length_dropWhile_le [of digit s']
      by (auto simp: digits_def less_Suc_eq_le split: if_splits)
  qed
  have int: "length rest < length s" if "int_part s = Some (x, rest)" for s x rest
    using that dig [of s x rest] by (auto simp: int_part_def split: list.splits if_splits)
  have frac: "length rest \<le> length s" if "frac_part s = Some (x, rest)" for s x rest
    using that by (auto simp: frac_part_def emit_def split: list.splits if_splits option.splits
                        dest!: dig)
  have exp: "length rest \<le> length s" if "exp_part s = Some (x, rest)" for s x rest
    using that by (auto simp: exp_part_def emit_def split: list.splits if_splits option.splits
                        dest!: dig)
  have num: "length rest < length s" if "scan_number s = Some (x, rest)" for s x rest
    using that
    by (auto simp: scan_number_def emit_def split: list.splits if_splits option.splits
             dest!: int frac exp)
  show "wf (measure length)"
    by simp
  show "(rest, c # s) \<in> measure length"
    if "scan_string s = Some x" and "(str, rest) = x" for c s x str rest
    using that str [of s str rest] by simp
  show "(rest, c # s) \<in> measure length"
    if "scan_number (c # s) = Some x" and "(n, rest) = x" for c s x n rest
    using that num [of "c # s" n rest] by simp
qed simp_all

declare lex.simps [simp del]

text \<open>
  The state machine of the scanner, token by token. A frame is an open array or
  object; an object frame is waiting for a key, for the colon after the key
  \<open>k\<close>, or for the value of \<open>k\<close>. At most \<open>maxNestingDepth\<close> frames may be open.
\<close>

datatype frame =
  FArray "jvalue list"
| FObject "(string \<times> jvalue) list"
| FKey "(string \<times> jvalue) list" string
| FValue "(string \<times> jvalue) list" string

datatype mode =
  BeginValue | BeginValueOrEmpty | BeginStringOrEmpty | BeginString | EndValue
| EndTop jvalue

definition maxNestingDepth :: nat where
  "maxNestingDepth = 10000"

fun end_value :: "jvalue \<Rightarrow> frame list \<Rightarrow> (mode \<times> frame list) option" where
  "end_value v [] = Some (EndTop v, [])"
| "end_value v (FValue ms k # st) = Some (EndValue, FObject (ms @ [(k, v)]) # st)"
| "end_value v (FArray vs # st) = Some (EndValue, FArray (vs @ [v]) # st)"
| "end_value v _ = None"

definition begin_value :: "token \<Rightarrow> frame list \<Rightarrow> (mode \<times> frame list) option" where
  "begin_value t st =
     (case t of
        LBrace \<Rightarrow> if length st < maxNestingDepth
                  then Some (BeginStringOrEmpty, FObject [] # st) else None
      | LBracket \<Rightarrow> if length st < maxNestingDepth
                    then Some (BeginValueOrEmpty, FArray [] # st) else None
      | Lit v \<Rightarrow> end_value v st
      | _ \<Rightarrow> None)"

definition begin_string :: "token \<Rightarrow> frame list \<Rightarrow> (mode \<times> frame list) option" where
  "begin_string t st =
     (case (t, st) of
        (Lit (VString k), FObject ms # st') \<Rightarrow> Some (EndValue, FKey ms k # st')
      | _ \<Rightarrow> None)"

fun step :: "token \<Rightarrow> mode \<times> frame list \<Rightarrow> (mode \<times> frame list) option" where
  "step t (BeginValue, st) = begin_value t st"
| "step t (BeginValueOrEmpty, st) =
     (case (t, st) of
        (RBracket, FArray vs # st') \<Rightarrow> end_value (VArray vs) st'
      | _ \<Rightarrow> begin_value t st)"
| "step t (BeginStringOrEmpty, st) =
     (case (t, st) of
        (RBrace, FObject ms # st') \<Rightarrow> end_value (VObject ms) st'
      | _ \<Rightarrow> begin_string t st)"
| "step t (BeginString, st) = begin_string t st"
| "step t (EndValue, st) =
     (case (t, st) of
        (Colon, FKey ms k # st') \<Rightarrow> Some (BeginValue, FValue ms k # st')
      | (Comma, FObject ms # st') \<Rightarrow> Some (BeginString, FObject ms # st')
      | (RBrace, FObject ms # st') \<Rightarrow> end_value (VObject ms) st'
      | (Comma, FArray vs # st') \<Rightarrow> Some (BeginValue, FArray vs # st')
      | (RBracket, FArray vs # st') \<Rightarrow> end_value (VArray vs) st'
      | _ \<Rightarrow> None)"
| "step t (EndTop v, st) = None"

fun steps :: "token list \<Rightarrow> mode \<times> frame list \<Rightarrow> (mode \<times> frame list) option" where
  "steps [] state = Some state"
| "steps (t # ts) state = (case step t state of None \<Rightarrow> None | Some state' \<Rightarrow> steps ts state')"

definition checkValid :: "string \<Rightarrow> jvalue option" where
  "checkValid data =
     (case lex data of
        None \<Rightarrow> None
      | Some ts \<Rightarrow> (case steps ts (BeginValue, []) of
                     Some (EndTop v, _) \<Rightarrow> Some v
                   | _ \<Rightarrow> None))"

text \<open>
  A key of an object names a field when it has the folded name of the field:
  ASCII letters in upper case, and the two letters outside ASCII that fold to an
  ASCII letter, U+017F to \<open>S\<close> and U+212A to \<open>K\<close>.
\<close>

fun foldName :: "string \<Rightarrow> string" where
  "foldName [] = []"
| "foldName (c # s) =
     (if CHR ''a'' \<le> c \<and> c \<le> CHR ''z'' then char_of (of_char c - (32::nat)) # foldName s
      else if take 2 (c # s) = [CHR 0xC5, CHR 0xBF] then CHR ''S'' # foldName (drop 1 s)
      else if take 3 (c # s) = [CHR 0xE2, CHR 0x84, CHR 0xAA] then CHR ''K'' # foldName (drop 2 s)
      else c # foldName s)"

definition names :: "string \<Rightarrow> string \<Rightarrow> bool" where
  "names key field \<longleftrightarrow> foldName key = foldName field"

text \<open>
  Storing a value in a target. \<^verbatim>\<open>null\<close> leaves a string and a struct as they are and
  empties a map; a value of another kind than the target is an error, which
  \<^verbatim>\<open>Unmarshal\<close> returns once the walk is over; a key that names no field is skipped;
  each key of the map under \<^verbatim>\<open>auths\<close> gets a fresh \<^verbatim>\<open>DockerAuth\<close>.
\<close>

definition store_string :: "jvalue \<Rightarrow> string \<Rightarrow> string option" where
  "store_string v old = (case v of VString s \<Rightarrow> Some s | VNull \<Rightarrow> Some old | _ \<Rightarrow> None)"

fun object_DockerAuth :: "(string \<times> jvalue) list \<Rightarrow> DockerAuth \<Rightarrow> DockerAuth option" where
  "object_DockerAuth [] a = Some a"
| "object_DockerAuth ((key, v) # ms) a =
     (if names key ''username''
      then (case store_string v (Username a) of
              None \<Rightarrow> None | Some s \<Rightarrow> object_DockerAuth ms (a\<lparr>Username := s\<rparr>))
      else if names key ''password''
      then (case store_string v (Password a) of
              None \<Rightarrow> None | Some s \<Rightarrow> object_DockerAuth ms (a\<lparr>Password := s\<rparr>))
      else if names key ''email''
      then (case store_string v (Email a) of
              None \<Rightarrow> None | Some s \<Rightarrow> object_DockerAuth ms (a\<lparr>Email := s\<rparr>))
      else if names key ''auth''
      then (case store_string v (Auth a) of
              None \<Rightarrow> None | Some s \<Rightarrow> object_DockerAuth ms (a\<lparr>Auth := s\<rparr>))
      else object_DockerAuth ms a)"

definition value_DockerAuth :: "jvalue \<Rightarrow> DockerAuth \<Rightarrow> DockerAuth option" where
  "value_DockerAuth v a =
     (case v of VObject ms \<Rightarrow> object_DockerAuth ms a | VNull \<Rightarrow> Some a | _ \<Rightarrow> None)"

definition zero_DockerAuth :: DockerAuth where
  "zero_DockerAuth = \<lparr>Username = [], Password = [], Email = [], Auth = []\<rparr>"

fun object_Auths ::
  "(string \<times> jvalue) list \<Rightarrow> (string \<times> DockerAuth) list \<Rightarrow> (string \<times> DockerAuth) list option" where
  "object_Auths [] m = Some m"
| "object_Auths ((key, v) # ms) m =
     (case value_DockerAuth v zero_DockerAuth of
        None \<Rightarrow> None
      | Some a \<Rightarrow> object_Auths ms (AList.update key a m))"

definition value_Auths ::
  "jvalue \<Rightarrow> (string \<times> DockerAuth) list \<Rightarrow> (string \<times> DockerAuth) list option" where
  "value_Auths v m =
     (case v of VObject ms \<Rightarrow> object_Auths ms m | VNull \<Rightarrow> Some [] | _ \<Rightarrow> None)"

fun object_DockerConfig :: "(string \<times> jvalue) list \<Rightarrow> DockerConfig \<Rightarrow> DockerConfig option" where
  "object_DockerConfig [] c = Some c"
| "object_DockerConfig ((key, v) # ms) c =
     (if names key ''auths''
      then (case value_Auths v (Auths c) of
              None \<Rightarrow> None | Some m \<Rightarrow> object_DockerConfig ms (c\<lparr>Auths := m\<rparr>))
      else object_DockerConfig ms c)"

definition value_DockerConfig :: "jvalue \<Rightarrow> DockerConfig \<Rightarrow> DockerConfig option" where
  "value_DockerConfig v c =
     (case v of VObject ms \<Rightarrow> object_DockerConfig ms c | VNull \<Rightarrow> Some c | _ \<Rightarrow> None)"

text \<open>
  \<^verbatim>\<open>json.Unmarshal\<close> into a fresh \<^verbatim>\<open>DockerConfig\<close>. The wording of the library's error
  is not modelled: \<open>describe\<close> gives it for each text.
\<close>

definition Unmarshal :: "(string \<Rightarrow> error) \<Rightarrow> string \<Rightarrow> error + DockerConfig" where
  "Unmarshal describe data =
     (case checkValid data of
        None \<Rightarrow> Inl (describe data)
      | Some v \<Rightarrow> (case value_DockerConfig v \<lparr>Auths = []\<rparr> of
                    None \<Rightarrow> Inl (describe data)
                  | Some config \<Rightarrow> Inr config))"

subsection \<open>Notions for stating what the codec does\<close>

definition required_keys :: "string list" where
  "required_keys = [''docker-server'', ''docker-username'', ''docker-password'']"

text \<open>
  A valid docker-registry entry map: the three required fields are present and not
  empty, and no key lies outside the four fields of the type.
\<close>

definition valid_docker :: "strmap \<Rightarrow> bool" where
  "valid_docker X \<longleftrightarrow>
     (\<forall>k\<in>set required_keys. \<not> missing X k) \<and>
     fst ` set X \<subseteq> set (required_keys @ [''docker-email''])"


text \<open>The entries that \<^verbatim>\<open>ParseDockerConfigJSON\<close> builds from one registry.\<close>

definition docker_entries :: "string \<Rightarrow> DockerAuth \<Rightarrow> strmap" where
  "docker_entries server a =
     [(''docker-server'', server), (''docker-username'', Username a),
      (''docker-password'', Password a)]
     @ (if Email a = [] then [] else [(''docker-email'', Email a)])"

text \<open>
  The library at one document: \<open>marshal_at doc text\<close> writes \<open>text\<close> for \<open>doc\<close>, and
  \<open>unmarshal_at text c\<close> reads \<open>c\<close> from \<open>text\<close>. They stand for the library on the
  sample documents that follow.
\<close>

definition marshal_at :: "json \<Rightarrow> string \<Rightarrow> json \<Rightarrow> error + string" where
  "marshal_at doc text j = (if j = doc then Inr text else Inl ''json: unsupported value'')"

definition unmarshal_at :: "string \<Rightarrow> DockerConfig \<Rightarrow> string \<Rightarrow> error + DockerConfig" where
  "unmarshal_at text c s = (if s = text then Inr c else Inl ''invalid character'')"

definition ghcr_entries :: strmap where
  "ghcr_entries = [(''docker-server'', ''https://ghcr.io''), (''docker-username'', ''u''),
                   (''docker-password'', ''p''), (''docker-email'', '''')]"

definition ghcr_text :: string where
  \<open>ghcr_text = ''{"auths":{"https://ghcr.io":{"username":"u","password":"p","auth":"dTpw"}}}''\<close>

definition ghcr_encode :: "json \<Rightarrow> error + string" where
  "ghcr_encode = marshal_at (json_DockerConfig (docker_config ghcr_entries)) ghcr_text"

definition ghcr_unmarshal :: "string \<Rightarrow> error + DockerConfig" where
  "ghcr_unmarshal = unmarshal_at ghcr_text (docker_config ghcr_entries)"

definition no_username :: strmap where
  "no_username = [(''docker-server'', ''https://ghcr.io''), (''docker-password'', ''p'')]"

definition two_registries :: DockerConfig where
  "two_registries = \<lparr>Auths =
     [(''https://ghcr.io'', \<lparr>Username = ''u'', Password = ''p'', Email = '''', Auth = ''dTpw''\<rparr>),
      (''https://quay.io'', \<lparr>Username = ''v'', Password = ''q'', Email = '''', Auth = ''djpx''\<rparr>)]\<rparr>"

definition two_registries_text :: string where
  \<open>two_registries_text = ''{"auths":{"https://ghcr.io":{"username":"u","password":"p","auth":"dTpw"},"https://quay.io":{"username":"v","password":"q","auth":"djpx"}}}''\<close>

definition two_registries_unmarshal :: "string \<Rightarrow> error + DockerConfig" where
  "two_registries_unmarshal = unmarshal_at two_registries_text two_registries"

subsection \<open>Notions for stating what the library does to a string\<close>

text \<open>
  \<^verbatim>\<open>utf8.ValidString\<close>: the string is a sequence of ASCII bytes and valid encodings.
\<close>

function ValidString :: "string \<Rightarrow> bool" where
  "ValidString [] \<longleftrightarrow> True"
| "ValidString (b # s) \<longleftrightarrow>
     (if b < CHR 0x80 then ValidString s
      else if utf8_len (b # s) = 0 then False
      else ValidString (drop (utf8_len (b # s)) (b # s)))"
  by pat_completeness auto
termination
  by (relation "measure length") auto

declare ValidString.simps [simp del]

text \<open>
  The string with every byte that starts no valid encoding replaced by the
  encoding of U+FFFD.
\<close>

function coerce_utf8 :: "string \<Rightarrow> string" where
  "coerce_utf8 [] = []"
| "coerce_utf8 (b # s) =
     (if b < CHR 0x80 then b # coerce_utf8 s
      else if utf8_len (b # s) = 0 then [CHR 0xEF, CHR 0xBF, CHR 0xBD] @ coerce_utf8 s
      else take (utf8_len (b # s)) (b # s) @ coerce_utf8 (drop (utf8_len (b # s)) (b # s)))"
  by pat_completeness auto
termination
  by (relation "measure length") auto

declare coerce_utf8.simps [simp del]

text \<open>
  A valid entry map whose password is the single byte \<open>FF\<close>, which is no UTF-8, and
  the wire text \<^verbatim>\<open>json.Marshal\<close> writes for it; \<open>short_error\<close> stands for the
  wording of the library's errors where a sample needs one.
\<close>

definition raw_password :: strmap where
  "raw_password = [(''docker-server'', ''https://ghcr.io''), (''docker-username'', ''u''),
                   (''docker-password'', [CHR 0xFF])]"

definition raw_password_text :: string where
  \<open>raw_password_text =
     ''{"auths":{"https://ghcr.io":{"username":"u","password":"'' @ CHR 0x5C # ''ufffd'' @
     ''","auth":"dTr/"}}}''\<close>

definition short_error :: "string \<Rightarrow> error" where
  "short_error data = ''invalid JSON''"

section \<open>The content parser\<close>

subsection \<open>Library functions on strings\<close>

definition HasPrefix :: "string \<Rightarrow> string \<Rightarrow> bool" where
  "HasPrefix s p = (take (length p) s = p)"

text \<open>
  \<^verbatim>\<open>strings.TrimSpace\<close> removes the leading and trailing code points that
  \<^verbatim>\<open>unicode.IsSpace\<close> accepts. On the bytes of the string these are the UTF-8
  encodings below: tab, line feed, vertical tab, form feed, carriage return, space,
  U+0085, U+00A0, U+1680, U+2000 to U+200A, U+2028, U+2029, U+202F, U+205F, U+3000.
\<close>

definition space_runes :: "string list" where
  "space_runes =
     [[CHR 0x09], [CHR 0x0A], [CHR 0x0B], [CHR 0x0C], [CHR 0x0D], [CHR 0x20],
      [CHR 0xC2, CHR 0x85], [CHR 0xC2, CHR 0xA0], [CHR 0xE1, CHR 0x9A, CHR 0x80],
      [CHR 0xE2, CHR 0x80, CHR 0x80], [CHR 0xE2, CHR 0x80, CHR 0x81],
      [CHR 0xE2, CHR 0x80, CHR 0x82], [CHR 0xE2, CHR 0x80, CHR 0x83],
      [CHR 0xE2, CHR 0x80, CHR 0x84], [CHR 0xE2, CHR 0x80, CHR 0x85],
      [CHR 0xE2, CHR 0x80, CHR 0x86], [CHR 0xE2, CHR 0x80, CHR 0x87],
      [CHR 0xE2, CHR 0x80, CHR 0x88], [CHR 0xE2, CHR 0x80, CHR 0x89],
      [CHR 0xE2, CHR 0x80, CHR 0x8A], [CHR 0xE2, CHR 0x80, CHR 0xA8],
      [CHR 0xE2, CHR 0x80, CHR 0xA9], [CHR 0xE2, CHR 0x80, CHR 0xAF],
      [CHR 0xE2, CHR 0x81, CHR 0x9F], [CHR 0xE3, CHR 0x80, CHR 0x80]]"

function trim_runes :: "string list \<Rightarrow> string \<Rightarrow> string" where
  "trim_runes runes s =
     (case find (\<lambda>r. r \<noteq> [] \<and> HasPrefix s r) runes of
        None \<Rightarrow> s
      | Some r \<Rightarrow> trim_runes runes (drop (length r) s))"
  by pat_completeness auto
termination
proof (relation "measure (\<lambda>(runes, s). length s)")
  show "wf (measure (\<lambda>(runes, s). length s))" by simp
next
  fix runes :: "string list" and s r :: string
  assume "find (\<lambda>r. r \<noteq> [] \<and> HasPrefix s r) runes = Some r"
  then have "r \<noteq> []" and "HasPrefix s r" by (auto simp: find_Some_iff)
  then have "s \<noteq> []" by (auto simp: HasPrefix_def)
  with \<open>r \<noteq> []\<close>
  show "((runes, drop (length r) s), (runes, s)) \<in> measure (\<lambda>(runes, s). length s)"
    by simp
qed

declare trim_runes.simps [simp del]

definition TrimSpace :: "string \<Rightarrow> string" where
  "TrimSpace s = rev (trim_runes (map rev space_runes) (rev (trim_runes space_runes s)))"

text \<open>
  \<^verbatim>\<open>strings.SplitN(s, sep, n)\<close> for a separator of one byte: at most \<open>n\<close> pieces, cut
  at the leftmost separators, the last piece being the unsplit rest.
\<close>

fun IndexByte :: "string \<Rightarrow> char \<Rightarrow> nat option" where
  "IndexByte [] c = None"
| "IndexByte (x # xs) c = (if x = c then Some 0 else map_option Suc (IndexByte xs c))"

fun SplitN :: "string \<Rightarrow> char \<Rightarrow> nat \<Rightarrow> string list" where
  "SplitN s sep 0 = []"
| "SplitN s sep (Suc n) =
     (if n = 0 then [s]
      else case IndexByte s sep of
             None \<Rightarrow> [s]
           | Some m \<Rightarrow> take m s # SplitN (drop (m + 1) s) sep n)"

text \<open>The verb \<^verbatim>\<open>%d\<close> of \<^verbatim>\<open>fmt\<close> on a non-negative integer.\<close>

function dec :: "nat \<Rightarrow> string" where
  "dec n = (if n < 10 then [char_of (48 + n)] else dec (n div 10) @ [char_of (48 + n mod 10)])"
  by pat_completeness auto
termination
  by (relation "measure id") auto

declare dec.simps [simp del]

subsection \<open>Reading lines\<close>

text \<open>
  \<^verbatim>\<open>bufio.Scanner\<close> with the default split function \<^verbatim>\<open>ScanLines\<close>: the input is cut at
  every line feed, an unterminated rest that is not empty is the last line, and one
  trailing carriage return is dropped from each line. The scanner holds a line in a
  buffer of at most \<^verbatim>\<open>MaxScanTokenSize\<close> bytes; at a line that does not fit it stops
  and reports \<^verbatim>\<open>ErrTooLong\<close>.
\<close>

definition MaxScanTokenSize :: nat where
  "MaxScanTokenSize = 64 * 1024"

fun raw_lines :: "string \<Rightarrow> string list" where
  "raw_lines [] = []"
| "raw_lines (c # cs) =
     (if c = CHR 0x0A then [] # raw_lines cs
      else case raw_lines cs of [] \<Rightarrow> [[c]] | l # ls \<Rightarrow> (c # l) # ls)"

definition dropCR :: "string \<Rightarrow> string" where
  "dropCR data = (if data \<noteq> [] \<and> last data = CHR 0x0D then butlast data else data)"

definition Scan :: "string \<Rightarrow> string list \<times> error option" where
  "Scan content =
     (let raw = raw_lines content;
          fit = takeWhile (\<lambda>l. length l < MaxScanTokenSize) raw
      in (map dropCR fit,
          if length fit = length raw then None else Some ''bufio.Scanner: token too long''))"

subsection \<open>The type comment\<close>

text \<open>
  \<^verbatim>\<open>extractTypeFromComment\<close> matches \<^verbatim>\<open>^#\s*type\s*=\s*(.+)\<close> and trims the group.
  In Go's syntax \<^verbatim>\<open>\s\<close> is one of tab, line feed, form feed, carriage return and
  space, and \<^verbatim>\<open>.\<close> is any character but a line feed. No prefix of the pattern can
  match in two ways, so the match is read off from left to right; when nothing is
  left for the group after the last \<^verbatim>\<open>\s*\<close>, either there is no match or the group
  is a single blank, and the function returns the empty string in both cases.
\<close>

definition re_space :: "char \<Rightarrow> bool" where
  "re_space c \<longleftrightarrow> c \<in> set [CHR 0x09, CHR 0x0A, CHR 0x0C, CHR 0x0D, CHR 0x20]"

definition extractTypeFromComment :: "string \<Rightarrow> string" where
  "extractTypeFromComment line =
     (if \<not> HasPrefix line ''#'' then []
      else
        let r1 = dropWhile re_space (drop 1 line) in
        if \<not> HasPrefix r1 ''type'' then []
        else
          let r2 = dropWhile re_space (drop 4 r1) in
          if \<not> HasPrefix r2 ''='' then []
          else TrimSpace (takeWhile (\<lambda>c. c \<noteq> CHR 0x0A) (dropWhile re_space (drop 1 r2))))"

definition mapSecretType :: "string \<Rightarrow> string" where
  "mapSecretType secretType =
     (if secretType = ''docker-registry'' then ''kubernetes.io/dockerconfigjson''
      else if secretType = ''tls'' then ''kubernetes.io/tls''
      else if secretType = ''basic-auth'' then ''kubernetes.io/basic-auth''
      else if secretType = ''ssh-auth'' then ''kubernetes.io/ssh-auth''
      else if secretType = ''generic'' \<or> secretType = ''opaque'' \<or> secretType = [] then ''Opaque''
      else secretType)"

subsection \<open>parseSecretContent\<close>

definition unquote :: "string \<Rightarrow> string" where
  "unquote v =
     (if length v \<ge> 2 \<and>
         ((hd v = CHR 0x22 \<and> last v = CHR 0x22) \<or> (hd v = CHR 0x27 \<and> last v = CHR 0x27))
      then butlast (tl v) else v)"

definition invalid_line :: "nat \<Rightarrow> string \<Rightarrow> error" where
  "invalid_line lineNum line =
     ''invalid line '' @ dec lineNum @ '': '' @ line @ '' (expected KEY=VALUE format)''"

text \<open>
  The loop over the scanned lines; \<open>n\<close> is \<^verbatim>\<open>lineNum\<close> before the line is read.
\<close>

fun parse_lines :: "nat \<Rightarrow> string list \<Rightarrow> strmap \<Rightarrow> string \<Rightarrow> error + strmap \<times> string" where
  "parse_lines n [] data secretType = Inr (data, secretType)"
| "parse_lines n (raw # rest) data secretType =
     (let lineNum = n + 1;
          line = TrimSpace raw
      in if lineNum = 1 \<and> HasPrefix line ''#'' \<and> extractTypeFromComment line \<noteq> []
         then parse_lines lineNum rest data (extractTypeFromComment line)
         else if line = [] \<or> HasPrefix line ''#''
         then parse_lines lineNum rest data secretType
         else
           let parts = SplitN line (CHR ''='') 2 in
           if length parts \<noteq> 2 then Inl (invalid_line lineNum line)
           else
             let key = TrimSpace (parts ! 0);
                 val = unquote (TrimSpace (parts ! 1))
             in parse_lines lineNum rest (AList.update key val data) secretType)"

definition parseSecretContent :: "string \<Rightarrow> error + strmap \<times> string" where
  "parseSecretContent content =
     (let (lines, err) = Scan content in
      case parse_lines 0 lines [] ''Opaque'' of
        Inl e \<Rightarrow> Inl e
      | Inr (data, secretType) \<Rightarrow>
          (case err of
             Some e \<Rightarrow> Inl (''error reading content: '' @ e)
           | None \<Rightarrow> Inr (data, mapSecretType secretType)))"

subsection \<open>Notions for stating what the parser returns\<close>

text \<open>
  A trimmed line is a value line when it is neither empty nor a comment; it is
  malformed when it is a value line without \<^verbatim>\<open>=\<close>. \<open>line_key\<close> and \<open>line_value\<close>
  are the entry a value line stands for, and \<open>entries_of\<close> lists the entries of the
  value lines in the order of the input.
\<close>

definition value_line :: "string \<Rightarrow> bool" where
  "value_line l \<longleftrightarrow> l \<noteq> [] \<and> \<not> HasPrefix l ''#''"

definition malformed :: "string \<Rightarrow> bool" where
  "malformed l \<longleftrightarrow> value_line l \<and> CHR ''='' \<notin> set l"

definition line_key :: "string \<Rightarrow> string" where
  "line_key l = TrimSpace (takeWhile (\<lambda>c. c \<noteq> CHR ''='') l)"

definition line_value :: "string \<Rightarrow> string" where
  "line_value l = unquote (TrimSpace (drop 1 (dropWhile (\<lambda>c. c \<noteq> CHR ''='') l)))"

definition entries_of :: "string list \<Rightarrow> strmap" where
  "entries_of ls = map (\<lambda>l. (line_key l, line_value l)) (filter value_line ls)"

definition type_comment :: "string \<Rightarrow> bool" where
  "type_comment l \<longleftrightarrow> HasPrefix l ''#'' \<and> extractTypeFromComment l \<noteq> []"

text \<open>The assignment \<^verbatim>\<open>data[key] = value\<close> for an entry.\<close>

definition put :: "string \<times> string \<Rightarrow> strmap \<Rightarrow> strmap" where
  "put e m = AList.update (fst e) (snd e) m"

definition first_type :: "string list \<Rightarrow> string \<Rightarrow> string" where
  "first_type ls t = (case ls of [] \<Rightarrow> t
                      | l # _ \<Rightarrow> if type_comment l then extractTypeFromComment l else t)"

text \<open>
  The shape \<^verbatim>\<open># type = <value>\<close> of a type comment: \<^verbatim>\<open>#\<close>, blanks, \<^verbatim>\<open>type\<close>, blanks,
  \<^verbatim>\<open>=\<close>, blanks, and a value \<open>v\<close> that starts with a character other than a blank.
\<close>

definition directive :: "string \<Rightarrow> string \<Rightarrow> bool" where
  "directive l v \<longleftrightarrow>
     (\<exists>ws1 ws2 ws3. l = ''#'' @ ws1 @ ''type'' @ ws2 @ ''='' @ ws3 @ v \<and>
        (\<forall>c\<in>set (ws1 @ ws2 @ ws3). re_space c) \<and> v \<noteq> [] \<and> \<not> re_space (hd v))"

section \<open>Comparing entry maps\<close>

text \<open>
  Standard output is the list of the lines written, each without its final line
  feed. Both comparisons collect the keys of the two maps in a set, sort them with
  \<^verbatim>\<open>sort.Strings\<close> (bytewise order) and walk over them.
\<close>

definition truncateValue :: "string \<Rightarrow> nat \<Rightarrow> string" where
  "truncateValue s maxLen = (if length s \<le> maxLen then s else take maxLen s @ ''...'')"

definition formatValue :: "string \<Rightarrow> bool \<Rightarrow> bool \<Rightarrow> string" where
  "formatValue val exists verbose =
     (if \<not> exists then ''missing''
      else if verbose then ''['' @ val @ '']''
      else ''['' @ truncateValue val 10 @ '']'')"

definition all_keys :: "strmap \<Rightarrow> strmap \<Rightarrow> string list" where
  "all_keys a b = sort (remdups (map fst a @ map fst b))"

definition has_key :: "strmap \<Rightarrow> string \<Rightarrow> bool" where
  "has_key m k \<longleftrightarrow> map_of m k \<noteq> None"

fun local_loop ::
  "string \<Rightarrow> string \<Rightarrow> strmap \<Rightarrow> strmap \<Rightarrow> bool \<Rightarrow> string list \<Rightarrow> nat \<times> string list
   \<Rightarrow> nat \<times> string list" where
  "local_loop ns1 ns2 data1 data2 verbose [] acc = acc"
| "local_loop ns1 ns2 data1 data2 verbose (key # keys) (differences, out) =
     (let val1 = index data1 key; exists1 = has_key data1 key;
          val2 = index data2 key; exists2 = has_key data2 key;
          out = out @ [key]
      in if \<not> exists1 \<or> \<not> exists2 \<or> val1 \<noteq> val2
         then local_loop ns1 ns2 data1 data2 verbose keys
                (differences + 1,
                 out @ [''  '' @ ns1 @ '': '' @ formatValue val1 exists1 verbose,
                        ''  '' @ ns2 @ '': '' @ formatValue val2 exists2 verbose])
         else local_loop ns1 ns2 data1 data2 verbose keys (differences, out))"

definition compareSecretsLocal ::
  "string \<Rightarrow> string \<Rightarrow> strmap \<Rightarrow> strmap \<Rightarrow> bool \<Rightarrow> nat \<times> string list" where
  "compareSecretsLocal ns1 ns2 data1 data2 verbose =
     local_loop ns1 ns2 data1 data2 verbose (all_keys data1 data2) (0, [])"

fun remote_loop ::
  "string \<Rightarrow> strmap \<Rightarrow> strmap \<Rightarrow> bool \<Rightarrow> string list \<Rightarrow> nat \<times> string list
   \<Rightarrow> nat \<times> string list" where
  "remote_loop secretName onsite remote verbose [] acc = acc"
| "remote_loop secretName onsite remote verbose (key # keys) (differences, out) =
     (let onsiteVal = index onsite key; onsiteExists = has_key onsite key;
          remoteVal = index remote key; remoteExists = has_key remote key;
          changed = (\<not> onsiteExists \<or> \<not> remoteExists \<or> onsiteVal \<noteq> remoteVal);
          out = (if changed \<or> verbose then out @ [secretName @ ''/'' @ key] else out)
      in if changed
         then remote_loop secretName onsite remote verbose keys
                (differences + 1,
                 out @ [''  remote: '' @ formatValue remoteVal remoteExists verbose,
                        ''  onsite: '' @ formatValue onsiteVal onsiteExists verbose])
         else remote_loop secretName onsite remote verbose keys (differences, out))"

definition compareSecretsRemote ::
  "string \<Rightarrow> strmap \<Rightarrow> strmap \<Rightarrow> bool \<Rightarrow> nat \<times> string list" where
  "compareSecretsRemote secretName onsite remote verbose =
     remote_loop secretName onsite remote verbose (all_keys onsite remote) (0, [])"

subsection \<open>Notions for stating what a comparison prints\<close>

text \<open>
  A key is different when it is absent from either map or the two values differ.
  \<open>local_report\<close> and \<open>remote_report\<close> are the lines written for one key.
\<close>

definition different :: "strmap \<Rightarrow> strmap \<Rightarrow> string \<Rightarrow> bool" where
  "different a b k \<longleftrightarrow> map_of a k \<noteq> map_of b k \<or> map_of a k = None"

definition local_report ::
  "string \<Rightarrow> string \<Rightarrow> strmap \<Rightarrow> strmap \<Rightarrow> bool \<Rightarrow> string \<Rightarrow> string list" where
  "local_report ns1 ns2 data1 data2 verbose k =
     k # (if different data1 data2 k
          then [''  '' @ ns1 @ '': '' @ formatValue (index data1 k) (has_key data1 k) verbose,
                ''  '' @ ns2 @ '': '' @ formatValue (index data2 k) (has_key data2 k) verbose]
          else [])"

definition remote_report ::
  "string \<Rightarrow> strmap \<Rightarrow> strmap \<Rightarrow> bool \<Rightarrow> string \<Rightarrow> string list" where
  "remote_report secretName onsite remote verbose k =
     (if different onsite remote k \<or> verbose then [secretName @ ''/'' @ k] else [])
     @ (if different onsite remote k
        then [''  remote: '' @ formatValue (index remote k) (has_key remote k) verbose,
              ''  onsite: '' @ formatValue (index onsite k) (has_key onsite k) verbose]
        else [])"

section \<open>The synchronization driver\<close>

subsection \<open>Secrets and their wire form\<close>

record Secret =
  Namespace :: string
  Name :: string
  Type :: string
  Data :: strmap

text \<open>
  What the program takes from outside: the secrets a path loads to (files, decryption
  and the environment are behind \<^verbatim>\<open>LoadSecretsFromPath\<close>), the text layer of
  \<^verbatim>\<open>encoding/json\<close>, the position at which a map iteration over the decoded text
  starts, the verb \<^verbatim>\<open>%q\<close> of \<^verbatim>\<open>fmt\<close>, and the error of the \<^verbatim>\<open>download\<close> command,
  whose work on files and on the cluster is behind \<^verbatim>\<open>handleDownload\<close>.
\<close>

record env =
  LoadSecretsFromPath :: "string \<Rightarrow> error + Secret list"
  json_encode :: "json \<Rightarrow> error + string"
  json_unmarshal :: "string \<Rightarrow> error + DockerConfig"
  range_start :: "string \<Rightarrow> nat"
  Quote :: "string \<Rightarrow> string"
  handleDownload :: "string \<Rightarrow> error option"

definition ToKubernetesData :: "env \<Rightarrow> Secret \<Rightarrow> error + strmap" where
  "ToKubernetesData e s =
     (if Type s = ''kubernetes.io/dockerconfigjson''
      then case BuildDockerConfigJSON (json_encode e) (Data s) of
             Inl err \<Rightarrow> Inl (''failed to build docker config: '' @ err)
           | Inr jsonData \<Rightarrow> Inr [(''.dockerconfigjson'', jsonData)]
      else Inr (Data s))"

definition FromKubernetesData :: "env \<Rightarrow> string \<Rightarrow> strmap \<Rightarrow> error + strmap" where
  "FromKubernetesData e secretType k8sData =
     (if secretType = ''kubernetes.io/dockerconfigjson''
      then case map_of k8sData ''.dockerconfigjson'' of
             Some dockerConfigJSON \<Rightarrow>
               ParseDockerConfigJSON (json_unmarshal e) (range_start e dockerConfigJSON)
                 dockerConfigJSON
           | None \<Rightarrow> Inl ''docker-registry secret missing .dockerconfigjson key''
      else Inr k8sData)"

subsection \<open>The cluster\<close>

text \<open>
  The cluster as the program sees it through \<^verbatim>\<open>client-go\<close>: the stored secrets by
  namespace and name, each with its type and data; \<open>unavailable\<close>, the error of
  \<^verbatim>\<open>getKubeConfig\<close> or \<^verbatim>\<open>NewForConfig\<close> when the client cannot be built; and \<open>refuses\<close>,
  the error with which the server turns down a create or update.
\<close>

record kube =
  stored :: "string \<times> string \<Rightarrow> (string \<times> strmap) option"
  unavailable :: "error option"
  refuses :: "string \<Rightarrow> string \<Rightarrow> string \<Rightarrow> strmap \<Rightarrow> error option"

definition not_found :: "string \<Rightarrow> error" where
  \<open>not_found name = ''secrets "'' @ name @ ''" not found''\<close>

definition secretRead :: "kube \<Rightarrow> string \<Rightarrow> string \<Rightarrow> error + strmap" where
  "secretRead k namespace secretName =
     (case unavailable k of
        Some err \<Rightarrow> Inl (''error getting Kubernetes config: '' @ err)
      | None \<Rightarrow>
          (case stored k (namespace, secretName) of
             None \<Rightarrow> Inl (''error reading secret: '' @ not_found secretName)
           | Some (t, secretData) \<Rightarrow> Inr secretData))"

text \<open>\<^verbatim>\<open>secretWrite\<close> returns its error, the lines it printed and the cluster after it.\<close>

definition secretWrite ::
  "kube \<Rightarrow> string \<Rightarrow> string \<Rightarrow> string \<Rightarrow> strmap \<Rightarrow> error option \<times> string list \<times> kube" where
  "secretWrite k namespace secretName secretType values =
     (case unavailable k of
        Some err \<Rightarrow> (Some (''error getting Kubernetes config: '' @ err), [], k)
      | None \<Rightarrow>
          (case stored k (namespace, secretName) of
             None \<Rightarrow>
               (case refuses k namespace secretName secretType values of
                  Some err \<Rightarrow> (Some (''error creating secret: '' @ err), [], k)
                | None \<Rightarrow>
                    (None, [''Created secret '' @ secretName @ '' in namespace '' @ namespace],
                     k\<lparr>stored := (stored k)((namespace, secretName) \<mapsto> (secretType, values))\<rparr>))
           | Some old \<Rightarrow>
               (case refuses k namespace secretName secretType values of
                  Some err \<Rightarrow> (Some (''error updating secret: '' @ err), [], k)
                | None \<Rightarrow>
                    (None, [''Updated secret '' @ secretName @ '' in namespace '' @ namespace],
                     k\<lparr>stored := (stored k)((namespace, secretName) \<mapsto> (secretType, values))\<rparr>))))"

subsection \<open>upload\<close>

definition FromOnsiteSecret :: "Secret \<Rightarrow> error + strmap" where
  "FromOnsiteSecret secret = Inr (Data secret)"

definition FromRemoteSecret :: "env \<Rightarrow> kube \<Rightarrow> string \<Rightarrow> string \<Rightarrow> string \<Rightarrow> error + strmap" where
  "FromRemoteSecret e k namespace name secretType =
     (case secretRead k namespace name of
        Inl err \<Rightarrow> Inl err
      | Inr k8sData \<Rightarrow>
          (case FromKubernetesData e secretType k8sData of
             Inl err \<Rightarrow> Inl (''conversion failed: '' @ err)
           | Inr remoteData \<Rightarrow> Inr remoteData))"

text \<open>
  The variables of \<^verbatim>\<open>upload\<close> that live across the loop, with standard output and
  the cluster. \<open>writes\<close> lists the calls of \<^verbatim>\<open>secretWrite\<close>, by namespace and name.
\<close>

record run =
  secretsChanged :: nat
  keysChanged :: nat
  errors :: "error list"
  stdout :: "string list"
  cluster :: kube
  writes :: "(string \<times> string) list"

text \<open>The body of the loop, for one secret.\<close>

definition upload_secret :: "env \<Rightarrow> bool \<Rightarrow> bool \<Rightarrow> bool \<Rightarrow> Secret \<Rightarrow> run \<Rightarrow> run" where
  "upload_secret e force doit verbose secret r =
     (let secretName = Namespace secret @ ''/'' @ Name secret in
      case FromOnsiteSecret secret of
        Inl err \<Rightarrow>
          r\<lparr>stdout := stdout r @ [''warning: failed to read onsite secret '' @ secretName @ '': '' @ err],
            errors := errors r @ [secretName @ '': '' @ err]\<rparr>
      | Inr onsiteMap \<Rightarrow>
          let (differences, lines) =
                (case FromRemoteSecret e (cluster r) (Namespace secret) (Name secret) (Type secret) of
                   Inl err \<Rightarrow> (1, [''secret '' @ secretName @ '' is missing''])
                 | Inr remoteMap \<Rightarrow> compareSecretsRemote secretName onsiteMap remoteMap verbose);
              r = r\<lparr>stdout := stdout r @ lines\<rparr>;
              r = (if differences > 0
                   then r\<lparr>secretsChanged := secretsChanged r + 1,
                          keysChanged := keysChanged r + differences\<rparr>
                   else r)
          in if force \<or> (differences > 0 \<and> doit)
             then if doit
                  then
                    let r = r\<lparr>stdout := stdout r @ [''uploading secret '' @ secretName @ ''...'']\<rparr> in
                    case ToKubernetesData e secret of
                      Inl err \<Rightarrow>
                        r\<lparr>stdout := stdout r @ [''warning: conversion failed for '' @ secretName @ '': '' @ err],
                          errors := errors r @ [secretName @ '': '' @ err]\<rparr>
                    | Inr k8sData \<Rightarrow>
                        (case secretWrite (cluster r) (Namespace secret) (Name secret) (Type secret)
                                k8sData of
                           (Some err, printed, k) \<Rightarrow>
                             r\<lparr>stdout := stdout r @ printed
                                    @ [''warning: upload failed for '' @ secretName @ '': '' @ err],
                               errors := errors r @ [secretName @ '': '' @ err],
                               cluster := k,
                               writes := writes r @ [(Namespace secret, Name secret)]\<rparr>
                         | (None, printed, k) \<Rightarrow>
                             r\<lparr>stdout := stdout r @ printed, cluster := k,
                               writes := writes r @ [(Namespace secret, Name secret)]\<rparr>)
                  else r
             else r)"

definition initial :: "kube \<Rightarrow> run" where
  "initial k = \<lparr>secretsChanged = 0, keysChanged = 0, errors = [], stdout = [], cluster = k,
              writes = []\<rparr>"

definition upload :: "env \<Rightarrow> kube \<Rightarrow> string \<Rightarrow> bool \<Rightarrow> bool \<Rightarrow> bool \<Rightarrow> error option \<times> run" where
  "upload e k path force doit verbose =
     (case LoadSecretsFromPath e path of
        Inl err \<Rightarrow> (Some (''failed to load secrets: '' @ err), initial k)
      | Inr secrets \<Rightarrow>
          if length secrets = 0
          then (None, (initial k)\<lparr>stdout := [''no secrets found in '' @ path]\<rparr>)
          else
            let r = fold (upload_secret e force doit verbose) secrets (initial k);
                r = r\<lparr>stdout := stdout r @ ['''', ''secrets changed: '' @ dec (secretsChanged r),
                                       ''keys changed: '' @ dec (keysChanged r)]\<rparr>;
                r = (if length (errors r) > 0
                     then r\<lparr>stdout := stdout r @ [''completed with '' @ dec (length (errors r))
                                             @ '' error(s)'']\<rparr>
                     else r)
            in (None, r))"

definition handleUpload :: "env \<Rightarrow> kube \<Rightarrow> string \<Rightarrow> bool \<Rightarrow> bool \<Rightarrow> bool \<Rightarrow> error option \<times> run" where
  "handleUpload e k path force doit verbose = upload e k path force doit verbose"

subsection \<open>diff\<close>

text \<open>
  \<^verbatim>\<open>diffLocalVsLocal\<close>. With several secrets on a side the secrets are matched by
  name: \<open>by_name\<close> is the map from names to secrets, a later secret of the same
  name replacing an earlier one.
\<close>

definition by_name :: "Secret list \<Rightarrow> (string \<times> Secret) list" where
  "by_name secrets = fold (\<lambda>s m. AList.update (Name s) s m) secrets []"

fun names_loop ::
  "string \<Rightarrow> string \<Rightarrow> (string \<times> Secret) list \<Rightarrow> (string \<times> Secret) list \<Rightarrow> bool
   \<Rightarrow> string list \<Rightarrow> nat \<times> string list \<Rightarrow> nat \<times> string list" where
  "names_loop path1 path2 names1 names2 verbose [] acc = acc"
| "names_loop path1 path2 names1 names2 verbose (key # keys) (totalDifferences, out) =
     (case map_of names1 key of
        None \<Rightarrow>
          names_loop path1 path2 names1 names2 verbose keys
            (totalDifferences + 1, out @ [''secret '' @ key @ '': only in '' @ path2])
      | Some s1 \<Rightarrow>
          (case map_of names2 key of
             None \<Rightarrow>
               names_loop path1 path2 names1 names2 verbose keys
                 (totalDifferences + 1, out @ [''secret '' @ key @ '': only in '' @ path1])
           | Some s2 \<Rightarrow>
               let (differences, lines) =
                     compareSecretsLocal (Namespace s1) (Namespace s2) (Data s1) (Data s2) verbose
               in names_loop path1 path2 names1 names2 verbose keys
                    (totalDifferences + differences, out @ lines)))"

definition diffLocalVsLocal :: "env \<Rightarrow> string \<Rightarrow> string \<Rightarrow> bool \<Rightarrow> error option \<times> string list" where
  "diffLocalVsLocal e path1 path2 verbose =
     (case LoadSecretsFromPath e path1 of
        Inl err \<Rightarrow> (Some (''failed to load secrets from '' @ path1 @ '': '' @ err), [])
      | Inr secrets1 \<Rightarrow>
          (case LoadSecretsFromPath e path2 of
             Inl err \<Rightarrow> (Some (''failed to load secrets from '' @ path2 @ '': '' @ err), [])
           | Inr secrets2 \<Rightarrow>
               if length secrets1 = 1 \<and> length secrets2 = 1
               then
                 let s1 = secrets1 ! 0; s2 = secrets2 ! 0;
                     (differences, lines) =
                       compareSecretsLocal (Namespace s1) (Namespace s2) (Data s1) (Data s2) verbose
                 in (None, lines @ [dec differences @ '' difference(s)''])
               else
                 let names1 = by_name secrets1; names2 = by_name secrets2;
                     keys = sort (remdups (map fst names1 @ map fst names2));
                     (totalDifferences, lines) =
                       names_loop path1 path2 names1 names2 verbose keys (0, [])
                 in (None, lines @ [dec totalDifferences @ '' difference(s)''])))"

definition handleDiff :: "env \<Rightarrow> kube \<Rightarrow> string \<Rightarrow> string \<Rightarrow> bool \<Rightarrow> error option \<times> run" where
  "handleDiff e k path1 path2 verbose =
     (if path2 = [] then upload e k path1 False False verbose
      else case diffLocalVsLocal e path1 path2 verbose of
             (err, lines) \<Rightarrow> (err, (initial k)\<lparr>stdout := lines\<rparr>))"

subsection \<open>manifest\<close>

text \<open>The loop of \<^verbatim>\<open>handleManifest\<close>; \<open>i\<close> is the index of the secret.\<close>

fun manifest_loop :: "env \<Rightarrow> nat \<Rightarrow> Secret list \<Rightarrow> string list \<Rightarrow> error option \<times> string list" where
  "manifest_loop e i [] out = (None, out)"
| "manifest_loop e i (secret # rest) out =
     (let out = (if i > 0 then out @ [''---''] else out) in
      case ToKubernetesData e secret of
        Inl err \<Rightarrow>
          (Some (''failed to convert '' @ Namespace secret @ ''/'' @ Name secret @ '': '' @ err),
           out)
      | Inr k8sData \<Rightarrow>
          manifest_loop e (i + 1) rest
            (out @ [''apiVersion: v1'', ''kind: Secret'', ''metadata:'',
                    ''  name: '' @ Name secret, ''  namespace: '' @ Namespace secret,
                    ''type: '' @ Type secret, ''stringData:'']
                 @ map (\<lambda>key. ''  '' @ key @ '': '' @ Quote e (index k8sData key))
                     (sort (remdups (map fst k8sData)))))"

definition handleManifest :: "env \<Rightarrow> string \<Rightarrow> error option \<times> string list" where
  "handleManifest e path =
     (case LoadSecretsFromPath e path of
        Inl err \<Rightarrow> (Some (''failed to load secrets: '' @ err), [])
      | Inr secrets \<Rightarrow>
          if length secrets = 0 then (None, [''No secrets found in '' @ path])
          else manifest_loop e 0 secrets [])"

subsection \<open>main\<close>

text \<open>
  \<^verbatim>\<open>main\<close> after \<^verbatim>\<open>flag.Parse\<close>: the three flags and the remaining arguments. The
  result is the exit code of the process, with the run of the command; what goes to
  standard error is left out.
\<close>

record flags =
  verbose_flag :: bool
  force_flag :: bool
  doit_flag :: bool

definition main :: "env \<Rightarrow> kube \<Rightarrow> flags \<Rightarrow> string list \<Rightarrow> nat \<times> run" where
  "main e k fl args =
     (if length args < 1 then (1, initial k)
      else
        let command = args ! 0 in
        if command \<noteq> ''upload'' \<and> command \<noteq> ''download'' \<and> command \<noteq> ''diff''
           \<and> command \<noteq> ''manifest''
        then (1, initial k)
        else
          let path1 = (if length args > 1 then args ! 1 else ''secrets'');
              path2 = (if length args > 2 then args ! 2 else [])
          in if command = ''upload''
             then (case handleUpload e k path1 (force_flag fl) (doit_flag fl) (verbose_flag fl) of
                     (Some err, r) \<Rightarrow> (1, r) | (None, r) \<Rightarrow> (0, r))
             else if command = ''download''
             then (case handleDownload e path1 of
                     Some err \<Rightarrow> (1, initial k) | None \<Rightarrow> (0, initial k))
             else if command = ''diff''
             then (case handleDiff e k path1 path2 (verbose_flag fl) of
                     (Some err, r) \<Rightarrow> (1, r) | (None, r) \<Rightarrow> (0, r))
             else (case handleManifest e path1 of
                     (Some err, lines) \<Rightarrow> (1, (initial k)\<lparr>stdout := lines\<rparr>)
                   | (None, lines) \<Rightarrow> (0, (initial k)\<lparr>stdout := lines\<rparr>)))"

subsection \<open>Notions for stating what the driver does\<close>

text \<open>
  The number of differences that \<^verbatim>\<open>upload\<close> finds for a secret against a cluster.
\<close>

definition differences_found :: "env \<Rightarrow> kube \<Rightarrow> bool \<Rightarrow> Secret \<Rightarrow> nat" where
  "differences_found e k verbose secret =
     (case FromRemoteSecret e k (Namespace secret) (Name secret) (Type secret) of
        Inl err \<Rightarrow> 1
      | Inr remoteMap \<Rightarrow>
          fst (compareSecretsRemote (Namespace secret @ ''/'' @ Name secret) (Data secret)
                 remoteMap verbose))"

definition first_path :: "string list \<Rightarrow> string" where
  "first_path rest = (case rest of [] \<Rightarrow> ''secrets'' | p # _ \<Rightarrow> p)"

text \<open>
  Sample inputs: a cluster without secrets, two local secrets, and an environment
  that loads given secrets from the path \<^verbatim>\<open>secrets\<close> (its values need no escapes when
  quoted).
\<close>

definition empty_cluster :: kube where
  "empty_cluster = \<lparr>stored = (\<lambda>_. None), unavailable = None, refuses = (\<lambda>_ _ _ _. None)\<rparr>"

definition app_secret :: Secret where
  "app_secret = \<lparr>Namespace = ''live'', Name = ''app'', Type = ''Opaque'',
                  Data = [(''USER'', ''u''), (''PASS'', ''p'')]\<rparr>"

definition registry_secret :: Secret where
  "registry_secret = \<lparr>Namespace = ''live'', Name = ''registry'',
                       Type = ''kubernetes.io/dockerconfigjson'', Data = no_username\<rparr>"

definition loads :: "Secret list \<Rightarrow> string \<Rightarrow> error + Secret list" where
  "loads secrets path =
     (if path = ''secrets'' then Inr secrets
      else Inl (''path '' @ path @ '' does not exist''))"

definition sample_env :: "Secret list \<Rightarrow> env" where
  "sample_env secrets =
     \<lparr>LoadSecretsFromPath = loads secrets, json_encode = ghcr_encode,
      json_unmarshal = ghcr_unmarshal, range_start = (\<lambda>_. 0),
      Quote = (\<lambda>s. [CHR 0x22] @ s @ [CHR 0x22]), handleDownload = (\<lambda>_. None)\<rparr>"

definition dry_forced :: flags where
  "dry_forced = \<lparr>verbose_flag = False, force_flag = True, doit_flag = False\<rparr>"

definition commit :: flags where
  "commit = \<lparr>verbose_flag = False, force_flag = False, doit_flag = True\<rparr>"

definition second_path :: "string list \<Rightarrow> string" where
  "second_path rest = (case rest of _ # p # _ \<Rightarrow> p | _ \<Rightarrow> [])"

section \<open>Properties of the docker-registry codec\<close>



lemma present_index: "\<not> missing X k \<Longrightarrow> map_of X k = Some (index X k)"
  by (auto simp: missing_def index_def split: option.splits)


lemma range_first_single: "range_first start [x] = x"
  by (simp add: range_first_def)

lemma range_first_mem: "xs \<noteq> [] \<Longrightarrow> range_first start xs \<in> set xs"
  by (simp add: range_first_def)

lemma Parse_decoded:
  assumes "unmarshal s = Inr c" and "Auths c \<noteq> []"
  shows "ParseDockerConfigJSON unmarshal start s
         = Inr (docker_entries (fst (range_first start (Auths c)))
                               (snd (range_first start (Auths c))))"
  using assms
  by (simp add: ParseDockerConfigJSON_def docker_entries_def Let_def split: prod.splits)



text \<open>
  Claim C9, as stated, fails: with two registries under \<^verbatim>\<open>auths\<close> the entry taken is
  the one the map iteration yields first, and two runs that start the iteration at
  different positions return different entries.
\<close>

theorem ParseDockerConfigJSON_two_registries_differ:
  "two_registries_unmarshal two_registries_text = Inr two_registries \<and>
   length (Auths two_registries) = 2 \<and>
   ParseDockerConfigJSON two_registries_unmarshal 0 two_registries_text
   \<noteq> ParseDockerConfigJSON two_registries_unmarshal 1 two_registries_text"
  by (simp add: ParseDockerConfigJSON_def two_registries_unmarshal_def unmarshal_at_def
      two_registries_def range_first_def)

text \<open>
  Claim C9, amended. For a wire text that decodes to a configuration with at least
  one registry, \<^verbatim>\<open>ParseDockerConfigJSON\<close> succeeds with the entries of exactly one of
  the registries under \<^verbatim>\<open>auths\<close>; when there is a single registry the result is the
  same in every run.
\<close>

theorem ParseDockerConfigJSON_selects_one:
  assumes "unmarshal wire = Inr c" and "Auths c \<noteq> []"
  shows "(\<exists>(server, a)\<in>set (Auths c).
            ParseDockerConfigJSON unmarshal start wire = Inr (docker_entries server a))
       \<and> (length (Auths c) = 1 \<longrightarrow>
            ParseDockerConfigJSON unmarshal start wire
            = ParseDockerConfigJSON unmarshal start' wire)"
proof
  have "range_first start (Auths c) \<in> set (Auths c)"
    using assms(2) by (rule range_first_mem)
  then show "\<exists>(server, a)\<in>set (Auths c).
            ParseDockerConfigJSON unmarshal start wire = Inr (docker_entries server a)"
    using Parse_decoded [of unmarshal wire c start] assms
    by (auto simp: case_prod_beta intro!: bexI)
next
  show "length (Auths c) = 1 \<longrightarrow>
            ParseDockerConfigJSON unmarshal start wire
            = ParseDockerConfigJSON unmarshal start' wire"
  proof
    assume "length (Auths c) = 1"
    then obtain x where "Auths c = [x]" by (cases "Auths c") auto
    then show "ParseDockerConfigJSON unmarshal start wire
               = ParseDockerConfigJSON unmarshal start' wire"
      using Parse_decoded [of unmarshal wire c start] Parse_decoded [of unmarshal wire c start']
        assms
      by (simp add: range_first_single)
  qed
qed

theorem ParseDockerConfigJSON_selects_one_witness:
  "ghcr_unmarshal ghcr_text = Inr (docker_config ghcr_entries)
   \<and> Auths (docker_config ghcr_entries) \<noteq> []
   \<and> length (Auths (docker_config ghcr_entries)) = 1
   \<and> (\<exists>(server, a)\<in>set (Auths (docker_config ghcr_entries)).
         ParseDockerConfigJSON ghcr_unmarshal 7 ghcr_text = Inr (docker_entries server a))
   \<and> ParseDockerConfigJSON ghcr_unmarshal 7 ghcr_text
       = ParseDockerConfigJSON ghcr_unmarshal 8 ghcr_text"
proof -
  have d: "ghcr_unmarshal ghcr_text = Inr (docker_config ghcr_entries)"
    by (simp add: ghcr_unmarshal_def unmarshal_at_def)
  have n: "Auths (docker_config ghcr_entries) \<noteq> []"
    and one: "length (Auths (docker_config ghcr_entries)) = 1"
    by (simp_all add: docker_config_def Let_def)
  from ParseDockerConfigJSON_selects_one [of ghcr_unmarshal ghcr_text "docker_config ghcr_entries" 7 8] d n one
  show ?thesis by blast
qed

subsection \<open>Strings through encoding/json\<close>

lemma lead_size:
  assumes "lead b = Some (sz, lo, hi)"
  shows "(sz = 2 \<or> sz = 3 \<or> sz = 4) \<and> \<not> b < CHR 0x80"
  using assms by (auto simp: lead_def less_eq_char_def less_char_def split: if_splits)

lemma utf8_len_first: "utf8_len (b # s) \<noteq> 0 \<Longrightarrow> \<not> b < CHR 0x80"
  by (auto simp: utf8_len_def split: list.splits option.splits dest: lead_size)

lemma utf8_len_sz:
  assumes "utf8_len p \<noteq> 0"
  obtains p0 r sz lo hi where "p = p0 # r" and "lead p0 = Some (sz, lo, hi)"
    and "utf8_len p = sz" and "sz \<le> length p"
proof -
  obtain p0 r where p: "p = p0 # r"
    using assms by (cases p) (auto simp: utf8_len_def)
  obtain sz lo hi where l: "lead p0 = Some (sz, lo, hi)"
    using assms unfolding p by (auto simp: utf8_len_def split: option.splits)
  have "utf8_len p = sz \<and> sz \<le> length p"
    using assms lead_size [OF l] unfolding p
    by (auto simp: utf8_len_def l split: if_splits)
  then show ?thesis
    using that p l by blast
qed

lemma utf8_len_le: "utf8_len p \<le> length p"
proof (cases "utf8_len p = 0")
  case True
  then show ?thesis by simp
next
  case False
  then show ?thesis by (rule utf8_len_sz) simp
qed

lemma utf8_len_Cons:
  "lead p0 = Some (sz, lo, hi) \<Longrightarrow> x = p0 # r \<Longrightarrow> utf8_len x =
       (if length x < sz then 0
        else if x ! 1 < lo \<or> hi < x ! 1 then 0
        else if sz \<le> 2 then 2
        else if \<not> cont (x ! 2) then 0
        else if sz \<le> 3 then 3
        else if \<not> cont (x ! 3) then 0
        else 4)"
  by (simp add: utf8_len_def)

lemma utf8_len_take:
  assumes "utf8_len p \<noteq> 0"
  shows "utf8_len (take (utf8_len p) p @ t) = utf8_len p"
proof -
  obtain p0 r sz lo hi where p: "p = p0 # r" and l: "lead p0 = Some (sz, lo, hi)"
    and n: "utf8_len p = sz" and len: "sz \<le> length p"
    using assms by (rule utf8_len_sz)
  let ?q = "take sz p @ t"
  have nth: "\<And>i. i < sz \<Longrightarrow> ?q ! i = p ! i"
    using len by (simp add: nth_append)
  have q: "?q = p0 # (take (sz - 1) r @ t)"
    using lead_size [OF l] unfolding p by (auto simp: take_Cons')
  have lq: "sz \<le> length ?q"
    using len by simp
  note up = utf8_len_Cons [OF l p]
  note uq = utf8_len_Cons [OF l q]
  consider "sz = 2" | "sz = 3" | "sz = 4"
    using lead_size [OF l] by blast
  then have "utf8_len ?q = utf8_len p"
  proof cases
    case 1
    show ?thesis
      using nth [of 1] len lq unfolding 1 up [unfolded 1] uq [unfolded 1]
      by simp
  next
    case 2
    show ?thesis
      using nth [of 1] nth [of 2] len lq unfolding 2 up [unfolded 2] uq [unfolded 2]
      by simp
  next
    case 3
    show ?thesis
      using nth [of 1] nth [of 2] nth [of 3] len lq
      unfolding 3 up [unfolded 3] uq [unfolded 3]
      by simp
  qed
  then show ?thesis
    by (simp only: n)
qed

lemma hexval_hex: "k < 16 \<Longrightarrow> hexval (hex ! k) = Some k"
proof -
  assume "k < 16"
  then have "k \<in> set [0..<16]" by simp
  then show ?thesis
    by (auto simp: upt_rec hex_def hexval_def)
qed

lemma EncodeRune_ascii: "b < CHR 0x80 \<Longrightarrow> EncodeRune (of_char b) = [b]"
  by (simp add: EncodeRune_def less_char_def)

lemma EncodeRune_FFFD: "EncodeRune 0xFFFD = [CHR 0xEF, CHR 0xBF, CHR 0xBD]"
  by (simp add: EncodeRune_def char_of_eq_iff)

lemma EncodeRune_2028: "EncodeRune 0x2028 = [CHR 0xE2, CHR 0x80, CHR 0xA8]"
  by (simp add: EncodeRune_def char_of_eq_iff)

lemma EncodeRune_2029: "EncodeRune 0x2029 = [CHR 0xE2, CHR 0x80, CHR 0xA9]"
  by (simp add: EncodeRune_def char_of_eq_iff)

lemma scan_escape_ascii:
  assumes "b < CHR 0x80"
  shows "scan_string (escape_ascii b @ r) = emit [b] (scan_string r)"
proof -
  have n: "of_char b < (128::nat)"
    using assms by (simp add: less_char_def)
  have d: "of_char b div 16 < (16::nat)" "of_char b mod 16 < (16::nat)"
    using n by simp_all
  have u: "getu4 (CHR 0x5C # CHR ''u'' # CHR ''0'' # CHR ''0'' # hex ! (of_char b div 16)
                  # hex ! (of_char b mod 16) # r) = Some (of_char b)"
    using hexval_hex [OF d(1)] hexval_hex [OF d(2)] by (simp add: hexval_def)
  have s: "\<not> IsSurrogate (of_char b)"
    using n by (simp add: IsSurrogate_def)
  show ?thesis
    using u s EncodeRune_ascii [OF assms]
    by (simp add: escape_ascii_def scan_string.simps(2) escaped_def)
qed

lemma emit_Some: "emit p (Some (s, rest)) = Some (p @ s, rest)"
  by (simp add: emit_def)

lemma scan_u:
  assumes "getu4 (CHR 0x5C # CHR ''u'' # h) = Some rr" and "\<not> IsSurrogate rr"
  shows "scan_string (CHR 0x5C # CHR ''u'' # h) = emit (EncodeRune rr) (scan_string (drop 4 h))"
  using assms by (simp add: scan_string.simps(2) [of "CHR 0x5C"] del: getu4.simps)

lemma scan_FFFD:
  "scan_string ((CHR 0x5C # ''ufffd'') @ t) = emit [CHR 0xEF, CHR 0xBF, CHR 0xBD] (scan_string t)"
proof -
  have "getu4 (CHR 0x5C # CHR ''u'' # ''fffd'' @ t) = Some 0xFFFD"
    by (simp add: hexval_def)
  from scan_u [OF this] show ?thesis
    by (simp add: IsSurrogate_def EncodeRune_FFFD)
qed

lemma scan_2028:
  "scan_string ((CHR 0x5C # ''u2028'') @ t) = emit [CHR 0xE2, CHR 0x80, CHR 0xA8] (scan_string t)"
proof -
  have "getu4 (CHR 0x5C # CHR ''u'' # ''2028'' @ t) = Some 0x2028"
    by (simp add: hexval_def)
  from scan_u [OF this] show ?thesis
    by (simp add: IsSurrogate_def EncodeRune_2028)
qed

lemma scan_2029:
  "scan_string ((CHR 0x5C # ''u2029'') @ t) = emit [CHR 0xE2, CHR 0x80, CHR 0xA9] (scan_string t)"
proof -
  have "getu4 (CHR 0x5C # CHR ''u'' # ''2029'' @ t) = Some 0x2029"
    by (simp add: hexval_def)
  from scan_u [OF this] show ?thesis
    by (simp add: IsSurrogate_def EncodeRune_2029)
qed

lemma scan_copy:
  assumes "utf8_len p \<noteq> 0"
  shows "scan_string (take (utf8_len p) p @ t) = emit (take (utf8_len p) p) (scan_string t)"
proof -
  obtain p0 r sz lo hi where p: "p = p0 # r" and l: "lead p0 = Some (sz, lo, hi)"
    and n: "utf8_len p = sz" and len: "sz \<le> length p"
    using assms by (rule utf8_len_sz)
  have sz: "sz = 2 \<or> sz = 3 \<or> sz = 4" and hb: "\<not> p0 < CHR 0x80"
    using lead_size [OF l] by auto
  have b: "p0 \<noteq> CHR 0x22" "p0 \<noteq> CHR 0x5C" "\<not> p0 < CHR 0x20"
    using hb by (auto simp: less_char_def)
  let ?q = "take sz p @ t"
  have q: "?q = p0 # (take (sz - 1) r @ t)"
    using sz unfolding p by (auto simp: take_Cons')
  have k: "utf8_len ?q = sz"
    using utf8_len_take [OF assms, of t] unfolding n .
  have d: "drop sz ?q = t" and tk: "take sz ?q = take sz p"
    using len by simp_all
  have "scan_string ?q = emit (take sz ?q) (scan_string (drop sz ?q))"
    using b hb k sz
    by (simp only: scan_string.simps(2) [of p0 "take (sz - 1) r @ t", folded q] if_False)
       auto
  then show ?thesis
    unfolding n d tk .
qed

lemma scan_step:
  assumes "string_body s = pre @ string_body s'"
    and "coerce_utf8 s = out @ coerce_utf8 s'"
    and "\<And>t. scan_string (pre @ t) = emit out (scan_string t)"
    and "scan_string (string_body s' @ CHR 0x22 # rest) = Some (coerce_utf8 s', rest)"
  shows "scan_string (string_body s @ CHR 0x22 # rest) = Some (coerce_utf8 s, rest)"
  by (simp only: assms append_assoc emit_Some)

lemma scan_string_body:
  "scan_string (string_body s @ CHR 0x22 # rest) = Some (coerce_utf8 s, rest)"
proof (induction s rule: string_body.induct)
  case 1
  show ?case
    by (simp add: string_body.simps scan_string.simps coerce_utf8.simps)
next
  case (2 b src)
  let ?n = "utf8_len (b # src)"
  note sb = string_body.simps(2) [of b src]
  note cu = coerce_utf8.simps(2) [of b src]
  consider (ascii_safe) "b < CHR 0x80" "htmlSafe b"
    | (ascii_esc) "b < CHR 0x80" "\<not> htmlSafe b"
    | (invalid) "\<not> b < CHR 0x80" "?n = 0"
    | (ls) "\<not> b < CHR 0x80" "?n \<noteq> 0" "take 3 (b # src) = [CHR 0xE2, CHR 0x80, CHR 0xA8]"
    | (ps) "\<not> b < CHR 0x80" "?n \<noteq> 0" "take 3 (b # src) \<noteq> [CHR 0xE2, CHR 0x80, CHR 0xA8]"
           "take 3 (b # src) = [CHR 0xE2, CHR 0x80, CHR 0xA9]"
    | (copy) "\<not> b < CHR 0x80" "?n \<noteq> 0" "take 3 (b # src) \<noteq> [CHR 0xE2, CHR 0x80, CHR 0xA8]"
           "take 3 (b # src) \<noteq> [CHR 0xE2, CHR 0x80, CHR 0xA9]"
    by blast
  then show ?case
  proof cases
    case ascii_safe
    have b: "b \<noteq> CHR 0x22" "b \<noteq> CHR 0x5C" "\<not> b < CHR 0x20"
      using ascii_safe(2) by (auto simp: htmlSafe_def)
    show ?thesis
    proof (rule scan_step [where pre = "[b]" and out = "[b]" and s' = src])
      show "string_body (b # src) = [b] @ string_body src"
        using ascii_safe by (simp add: sb)
      show "coerce_utf8 (b # src) = [b] @ coerce_utf8 src"
        using ascii_safe by (simp add: cu)
      show "scan_string ([b] @ t) = emit [b] (scan_string t)" for t
        using ascii_safe(1) b by (simp add: scan_string.simps(2) [of b])
      show "scan_string (string_body src @ CHR 0x22 # rest) = Some (coerce_utf8 src, rest)"
        using "2.IH"(1) [OF ascii_safe(1)] .
    qed
  next
    case ascii_esc
    show ?thesis
    proof (rule scan_step [where pre = "escape_ascii b" and out = "[b]" and s' = src])
      show "string_body (b # src) = escape_ascii b @ string_body src"
        using ascii_esc by (simp add: sb)
      show "coerce_utf8 (b # src) = [b] @ coerce_utf8 src"
        using ascii_esc by (simp add: cu)
      show "scan_string (escape_ascii b @ t) = emit [b] (scan_string t)" for t
        using ascii_esc(1) by (rule scan_escape_ascii)
      show "scan_string (string_body src @ CHR 0x22 # rest) = Some (coerce_utf8 src, rest)"
        using "2.IH"(1) [OF ascii_esc(1)] .
    qed
  next
    case invalid
    show ?thesis
    proof (rule scan_step [where pre = "CHR 0x5C # ''ufffd''"
                             and out = "[CHR 0xEF, CHR 0xBF, CHR 0xBD]" and s' = src])
      show "string_body (b # src) = (CHR 0x5C # ''ufffd'') @ string_body src"
        using invalid by (simp add: sb)
      show "coerce_utf8 (b # src) = [CHR 0xEF, CHR 0xBF, CHR 0xBD] @ coerce_utf8 src"
        using invalid by (simp add: cu)
      show "scan_string ((CHR 0x5C # ''ufffd'') @ t)
              = emit [CHR 0xEF, CHR 0xBF, CHR 0xBD] (scan_string t)" for t
        by (rule scan_FFFD)
      show "scan_string (string_body src @ CHR 0x22 # rest) = Some (coerce_utf8 src, rest)"
        using "2.IH"(2) [OF invalid] .
    qed
  next
    case ls
    obtain r where src: "b = CHR 0xE2" "src = CHR 0x80 # CHR 0xA8 # r"
      using ls(3) by (cases src; cases "tl src") (auto split: if_splits)
    have n: "?n = 3"
      unfolding src by (simp add: utf8_len_def lead_def cont_def)
    show ?thesis
    proof (rule scan_step [where pre = "CHR 0x5C # ''u2028''"
                             and out = "[CHR 0xE2, CHR 0x80, CHR 0xA8]"
                             and s' = "drop 3 (b # src)"])
      show "string_body (b # src) = (CHR 0x5C # ''u2028'') @ string_body (drop 3 (b # src))"
        unfolding src
        by (simp add: string_body.simps(2) [of "CHR 0xE2"] n [unfolded src])
      show "coerce_utf8 (b # src) = [CHR 0xE2, CHR 0x80, CHR 0xA8] @ coerce_utf8 (drop 3 (b # src))"
        unfolding src
        by (simp add: coerce_utf8.simps(2) [of "CHR 0xE2"] n [unfolded src])
      show "scan_string ((CHR 0x5C # ''u2028'') @ t)
              = emit [CHR 0xE2, CHR 0x80, CHR 0xA8] (scan_string t)" for t
        by (rule scan_2028)
      show "scan_string (string_body (drop 3 (b # src)) @ CHR 0x22 # rest)
              = Some (coerce_utf8 (drop 3 (b # src)), rest)"
        using "2.IH"(3) [OF ls] .
    qed
  next
    case ps
    obtain r where src: "b = CHR 0xE2" "src = CHR 0x80 # CHR 0xA9 # r"
      using ps(4) by (cases src; cases "tl src") (auto split: if_splits)
    have n: "?n = 3"
      unfolding src by (simp add: utf8_len_def lead_def cont_def)
    show ?thesis
    proof (rule scan_step [where pre = "CHR 0x5C # ''u2029''"
                             and out = "[CHR 0xE2, CHR 0x80, CHR 0xA9]"
                             and s' = "drop 3 (b # src)"])
      show "string_body (b # src) = (CHR 0x5C # ''u2029'') @ string_body (drop 3 (b # src))"
        unfolding src
        by (simp add: string_body.simps(2) [of "CHR 0xE2"] n [unfolded src])
      show "coerce_utf8 (b # src) = [CHR 0xE2, CHR 0x80, CHR 0xA9] @ coerce_utf8 (drop 3 (b # src))"
        unfolding src
        by (simp add: coerce_utf8.simps(2) [of "CHR 0xE2"] n [unfolded src])
      show "scan_string ((CHR 0x5C # ''u2029'') @ t)
              = emit [CHR 0xE2, CHR 0x80, CHR 0xA9] (scan_string t)" for t
        by (rule scan_2029)
      show "scan_string (string_body (drop 3 (b # src)) @ CHR 0x22 # rest)
              = Some (coerce_utf8 (drop 3 (b # src)), rest)"
        using "2.IH"(4) [OF ps] .
    qed
  next
    case copy
    show ?thesis
    proof (rule scan_step [where pre = "take ?n (b # src)" and out = "take ?n (b # src)"
                             and s' = "drop ?n (b # src)"])
      show "string_body (b # src) = take ?n (b # src) @ string_body (drop ?n (b # src))"
        using copy by (simp only: sb if_False)
      show "coerce_utf8 (b # src) = take ?n (b # src) @ coerce_utf8 (drop ?n (b # src))"
        using copy by (simp only: cu if_False)
      show "scan_string (take ?n (b # src) @ t) = emit (take ?n (b # src)) (scan_string t)" for t
        using copy(2) by (rule scan_copy)
      show "scan_string (string_body (drop ?n (b # src)) @ CHR 0x22 # rest)
              = Some (coerce_utf8 (drop ?n (b # src)), rest)"
        using "2.IH"(5) [OF copy] .
    qed
  qed
qed

lemma tok_Some: "tok t (Some ts) = Some (t # ts)"
  by (simp add: tok_def)

lemma lex_punct:
  "lex (CHR ''{'' # r) = tok LBrace (lex r)"
  "lex (CHR ''}'' # r) = tok RBrace (lex r)"
  "lex (CHR '':'' # r) = tok Colon (lex r)"
  "lex (CHR '','' # r) = tok Comma (lex r)"
  by (simp_all add: lex.simps(2) isSpace_def)

lemma lex_string:
  "lex (appendString s @ r) = tok (Lit (VString (coerce_utf8 s))) (lex r)"
  by (simp add: appendString_def lex.simps(2) [of "CHR 0x22"] isSpace_def scan_string_body)

lemma coerce_names:
  "coerce_utf8 ''auths'' = ''auths''"
  "coerce_utf8 ''username'' = ''username''"
  "coerce_utf8 ''password'' = ''password''"
  "coerce_utf8 ''email'' = ''email''"
  "coerce_utf8 ''auth'' = ''auth''"
  by (simp_all add: coerce_utf8.simps)

lemma foldName_names:
  "foldName ''auths'' = ''AUTHS''"
  "foldName ''username'' = ''USERNAME''"
  "foldName ''password'' = ''PASSWORD''"
  "foldName ''email'' = ''EMAIL''"
  "foldName ''auth'' = ''AUTH''"
  by (simp_all add: char_of_eq_iff)

lemma render_single:
  "render (json_DockerConfig \<lparr>Auths = [(s, a)]\<rparr>) =
     ''{'' @ appendString ''auths'' @ '':{'' @ appendString s @ '':{''
     @ appendString ''username'' @ '':'' @ appendString (Username a) @ '',''
     @ appendString ''password'' @ '':'' @ appendString (Password a) @ '',''
     @ (if Email a = [] then []
        else appendString ''email'' @ '':'' @ appendString (Email a) @ '','')
     @ appendString ''auth'' @ '':'' @ appendString (Auth a) @ ''}}}''"
  by (simp add: json_DockerConfig_def json_DockerAuth_def)

lemma lex_single:
  "lex (render (json_DockerConfig \<lparr>Auths = [(s, a)]\<rparr>)) =
     Some ([LBrace, Lit (VString ''auths''), Colon, LBrace, Lit (VString (coerce_utf8 s)), Colon,
            LBrace, Lit (VString ''username''), Colon, Lit (VString (coerce_utf8 (Username a))), Comma,
            Lit (VString ''password''), Colon, Lit (VString (coerce_utf8 (Password a))), Comma]
           @ (if Email a = [] then []
              else [Lit (VString ''email''), Colon, Lit (VString (coerce_utf8 (Email a))), Comma])
           @ [Lit (VString ''auth''), Colon, Lit (VString (coerce_utf8 (Auth a))),
              RBrace, RBrace, RBrace])"
  unfolding render_single
  by (simp add: lex_punct lex_string coerce_names tok_Some lex.simps(1))

lemma checkValid_single:
  "checkValid (render (json_DockerConfig \<lparr>Auths = [(s, a)]\<rparr>)) =
     Some (VObject [(''auths'', VObject [(coerce_utf8 s, VObject
       ([(''username'', VString (coerce_utf8 (Username a))),
         (''password'', VString (coerce_utf8 (Password a)))]
        @ (if Email a = [] then [] else [(''email'', VString (coerce_utf8 (Email a)))])
        @ [(''auth'', VString (coerce_utf8 (Auth a)))]))])])"
  unfolding checkValid_def lex_single
  by (simp add: begin_value_def begin_string_def maxNestingDepth_def)

lemma coerce_utf8_Nil_iff: "coerce_utf8 s = [] \<longleftrightarrow> s = []"
  by (cases s) (auto simp: coerce_utf8.simps utf8_len_def split: list.splits option.splits if_splits)

lemma Unmarshal_single:
  "Unmarshal describe (render (json_DockerConfig \<lparr>Auths = [(s, a)]\<rparr>)) =
     Inr \<lparr>Auths = [(coerce_utf8 s,
       \<lparr>Username = coerce_utf8 (Username a), Password = coerce_utf8 (Password a),
          Email = coerce_utf8 (Email a), Auth = coerce_utf8 (Auth a)\<rparr>)]\<rparr>"
  unfolding Unmarshal_def checkValid_single
  by (simp add: value_DockerConfig_def value_Auths_def value_DockerAuth_def names_def
                foldName_names store_string_def zero_DockerAuth_def coerce_utf8.simps(1))

lemma coerce_valid: "ValidString s \<Longrightarrow> coerce_utf8 s = s"
proof (induction s rule: coerce_utf8.induct)
  case 1
  show ?case by (simp add: coerce_utf8.simps)
next
  case (2 b s)
  show ?case
  proof (cases "b < CHR 0x80")
    case True
    then show ?thesis
      using "2.prems" "2.IH"(1) by (simp add: coerce_utf8.simps(2) [of b s] ValidString.simps(2) [of b s])
  next
    case False
    then have n: "utf8_len (b # s) \<noteq> 0" and v: "ValidString (drop (utf8_len (b # s)) (b # s))"
      using "2.prems" by (simp_all add: ValidString.simps(2) [of b s] split: if_splits)
    have "coerce_utf8 (b # s) = take (utf8_len (b # s)) (b # s)
            @ coerce_utf8 (drop (utf8_len (b # s)) (b # s))"
      using False n by (simp only: coerce_utf8.simps(2) [of b s] if_False)
    also have "\<dots> = take (utf8_len (b # s)) (b # s) @ drop (utf8_len (b # s)) (b # s)"
      using "2.IH"(3) [OF False n v] by (simp only:)
    finally show ?thesis
      by (simp only: append_take_drop_id)
  qed
qed

lemma Build_Marshal:
  assumes "\<not> missing X ''docker-server''" "\<not> missing X ''docker-username''"
    "\<not> missing X ''docker-password''"
  shows "BuildDockerConfigJSON Marshal X = Inr (render (json_DockerConfig (docker_config X)))"
  using assms by (simp add: BuildDockerConfigJSON_def Marshal_def)

lemma docker_round_trip_coerced:
  assumes valid: "valid_docker X"
  shows "\<exists>wire Y. BuildDockerConfigJSON Marshal X = Inr wire \<and>
           ParseDockerConfigJSON (Unmarshal describe) start wire = Inr Y \<and>
           map_of Y = (\<lambda>k. if k = ''docker-email'' \<and> map_of X k = Some [] then None
                            else map_option coerce_utf8 (map_of X k))"
proof -
  let ?wire = "render (json_DockerConfig (docker_config X))"
  let ?a = "\<lparr>Username = index X ''docker-username'', Password = index X ''docker-password'',
             Email = index X ''docker-email'',
             Auth = EncodeToString (index X ''docker-username'' @ '':'' @ index X ''docker-password'')\<rparr>"
  let ?b = "\<lparr>Username = coerce_utf8 (index X ''docker-username''),
             Password = coerce_utf8 (index X ''docker-password''),
             Email = coerce_utf8 (index X ''docker-email''),
             Auth = coerce_utf8 (EncodeToString (index X ''docker-username'' @ '':''
                                  @ index X ''docker-password''))\<rparr>"
  let ?c = "\<lparr>Auths = [(coerce_utf8 (index X ''docker-server''), ?b)]\<rparr>"
  have present: "\<not> missing X ''docker-server''" "\<not> missing X ''docker-username''"
    "\<not> missing X ''docker-password''"
    using valid by (simp_all add: valid_docker_def required_keys_def)
  have build: "BuildDockerConfigJSON Marshal X = Inr ?wire"
    using present by (rule Build_Marshal)
  have config: "docker_config X = \<lparr>Auths = [(index X ''docker-server'', ?a)]\<rparr>"
    by (simp add: docker_config_def Let_def)
  have dec: "Unmarshal describe ?wire = Inr ?c"
    unfolding config by (simp add: Unmarshal_single)
  have parse: "ParseDockerConfigJSON (Unmarshal describe) start ?wire
               = Inr (docker_entries (coerce_utf8 (index X ''docker-server'')) ?b)"
    using Parse_decoded [of "Unmarshal describe" ?wire ?c start] dec
    by (simp add: range_first_single)
  have srv: "map_of X ''docker-server'' = Some (index X ''docker-server'')"
    and usr: "map_of X ''docker-username'' = Some (index X ''docker-username'')"
    and pwd: "map_of X ''docker-password'' = Some (index X ''docker-password'')"
    using present by (simp_all add: present_index)
  have other: "map_of X k = None"
    if "k \<noteq> ''docker-server''" "k \<noteq> ''docker-username''" "k \<noteq> ''docker-password''"
       "k \<noteq> ''docker-email''" for k
  proof -
    from valid that have "k \<notin> fst ` set X"
      by (auto simp: valid_docker_def required_keys_def)
    then show ?thesis by (simp add: map_of_eq_None_iff)
  qed
  have "map_of (docker_entries (coerce_utf8 (index X ''docker-server'')) ?b) k =
        (if k = ''docker-email'' \<and> map_of X k = Some [] then None
         else map_option coerce_utf8 (map_of X k))" for k
    using srv usr pwd other [of k]
    by (auto simp: docker_entries_def index_def coerce_utf8_Nil_iff coerce_utf8.simps(1)
             split: option.splits)
  with build parse show ?thesis by blast
qed

lemma coerce_fixed: "coerce_utf8 s = s \<Longrightarrow> ValidString s"
proof (induction s rule: coerce_utf8.induct)
  case 1
  show ?case by (simp add: ValidString.simps)
next
  case (2 b s)
  let ?n = "utf8_len (b # s)"
  consider (ascii) "b < CHR 0x80" | (invalid) "\<not> b < CHR 0x80" "?n = 0"
    | (copy) "\<not> b < CHR 0x80" "?n \<noteq> 0"
    by blast
  then show ?case
  proof cases
    case ascii
    then have "coerce_utf8 s = s"
      using "2.prems" by (simp add: coerce_utf8.simps(2) [of b s])
    then show ?thesis
      using ascii "2.IH"(1) by (simp add: ValidString.simps(2) [of b s])
  next
    case invalid
    then have "[CHR 0xEF, CHR 0xBF, CHR 0xBD] @ coerce_utf8 s = b # s"
      using "2.prems" by (simp add: coerce_utf8.simps(2) [of b s])
    then have "b = CHR 0xEF" and "s = CHR 0xBF # CHR 0xBD # coerce_utf8 s"
      by simp_all
    then obtain t where "b # s = CHR 0xEF # CHR 0xBF # CHR 0xBD # t"
      by blast
    then have "?n = 3"
      by (simp add: utf8_len_def lead_def cont_def)
    then show ?thesis
      using invalid by simp
  next
    case copy
    have "take ?n (b # s) @ coerce_utf8 (drop ?n (b # s)) = take ?n (b # s) @ drop ?n (b # s)"
      using copy "2.prems" by (simp only: coerce_utf8.simps(2) [of b s] if_False append_take_drop_id)
    then have "coerce_utf8 (drop ?n (b # s)) = drop ?n (b # s)"
      by (simp only: same_append_eq)
    then have "ValidString (drop ?n (b # s))"
      using "2.IH"(3) [OF copy] by blast
    then show ?thesis
      using copy by (simp only: ValidString.simps(2) [of b s] if_False)
  qed
qed

lemma coerce_fixed_iff: "coerce_utf8 s = s \<longleftrightarrow> ValidString s"
  using coerce_fixed coerce_valid by blast

lemma reproduced_iff:
  "(\<lambda>k. if k = ''docker-email'' \<and> map_of X k = Some [] then None
         else map_option coerce_utf8 (map_of X k))
     = (\<lambda>k. if k = ''docker-email'' \<and> map_of X k = Some [] then None else map_of X k)
   \<longleftrightarrow> (\<forall>v \<in> ran (map_of X). ValidString v)"
  (is "?l = ?r \<longleftrightarrow> ?v")
proof
  assume e: "?l = ?r"
  show ?v
  proof
    fix v
    assume "v \<in> ran (map_of X)"
    then obtain k where k: "map_of X k = Some v"
      by (auto simp: ran_def)
    show "ValidString v"
    proof (cases "k = ''docker-email'' \<and> v = []")
      case True
      then show ?thesis by (simp add: ValidString.simps)
    next
      case False
      from e have "?l k = ?r k" by (rule fun_cong)
      then have "coerce_utf8 v = v"
        using False k by (simp split: if_splits)
      then show ?thesis by (rule coerce_fixed)
    qed
  qed
next
  assume v: ?v
  have "map_option coerce_utf8 (map_of X k) = map_of X k" for k
  proof (cases "map_of X k")
    case None
    then show ?thesis by simp
  next
    case (Some w)
    then have "w \<in> ran (map_of X)" by (auto simp: ran_def)
    then show ?thesis using v Some by (simp add: coerce_valid)
  qed
  then show "?l = ?r" by (simp only:)
qed

subsection \<open>The round trip through the wire text\<close>

text \<open>
  Claim C4, as stated, fails: \<^verbatim>\<open>json.Marshal\<close> writes a byte that starts no valid UTF-8
  encoding as the escape of U+FFFD, and \<^verbatim>\<open>json.Unmarshal\<close> reads the escape as the three
  bytes \<open>EF BF BD\<close>. A valid entry map whose password is the byte \<open>FF\<close> comes back
  with another password.
\<close>

theorem docker_round_trip_loses_invalid_bytes:
  "valid_docker raw_password \<and>
   map_of raw_password ''docker-password'' = Some [CHR 0xFF] \<and>
   BuildDockerConfigJSON Marshal raw_password = Inr raw_password_text \<and>
   ParseDockerConfigJSON (Unmarshal short_error) 0 raw_password_text
     = Inr [(''docker-server'', ''https://ghcr.io''), (''docker-username'', ''u''),
            (''docker-password'', [CHR 0xEF, CHR 0xBF, CHR 0xBD])]"
proof -
  have v: "valid_docker raw_password"
    by (simp add: valid_docker_def required_keys_def raw_password_def missing_def)
  have p: "map_of raw_password ''docker-password'' = Some [CHR 0xFF]"
    by (simp add: raw_password_def)
  have c: "docker_config raw_password
           = \<lparr>Auths = [(''https://ghcr.io'',
                \<lparr>Username = ''u'', Password = [CHR 0xFF], Email = [], Auth = ''dTr/''\<rparr>)]\<rparr>"
    by code_simp
  have r: "render (json_DockerConfig (docker_config raw_password)) = raw_password_text"
    by code_simp
  have b: "BuildDockerConfigJSON Marshal raw_password = Inr raw_password_text"
    by (simp add: BuildDockerConfigJSON_def Marshal_def r)
       (simp add: missing_def raw_password_def)
  have k: "coerce_utf8 ''https://ghcr.io'' = ''https://ghcr.io''" "coerce_utf8 ''u'' = ''u''"
    "coerce_utf8 [CHR 0xFF] = [CHR 0xEF, CHR 0xBF, CHR 0xBD]" "coerce_utf8 ''dTr/'' = ''dTr/''"
    "coerce_utf8 [] = []"
    by (simp_all add: coerce_utf8.simps utf8_len_def lead_def)
  have u: "Unmarshal short_error raw_password_text
           = Inr \<lparr>Auths = [(''https://ghcr.io'',
                \<lparr>Username = ''u'', Password = [CHR 0xEF, CHR 0xBF, CHR 0xBD], Email = [],
                   Auth = ''dTr/''\<rparr>)]\<rparr>"
    using Unmarshal_single [of short_error "''https://ghcr.io''"
        "\<lparr>Username = ''u'', Password = [CHR 0xFF], Email = [], Auth = ''dTr/''\<rparr>"]
    unfolding c [symmetric] r by (simp add: k)
  have "ParseDockerConfigJSON (Unmarshal short_error) 0 raw_password_text
     = Inr [(''docker-server'', ''https://ghcr.io''), (''docker-username'', ''u''),
            (''docker-password'', [CHR 0xEF, CHR 0xBF, CHR 0xBD])]"
    by (simp add: ParseDockerConfigJSON_def u range_first_def)
  with v p b show ?thesis by blast
qed

text \<open>
  Claim C4, amended. For a valid docker-registry entry map \<open>X\<close>, \<^verbatim>\<open>BuildDockerConfigJSON\<close>
  produces a wire text and \<^verbatim>\<open>ParseDockerConfigJSON\<close> reads it: the result is \<open>X\<close> with
  every byte that starts no valid UTF-8 encoding replaced by \<open>EF BF BD\<close>, except that
  a \<^verbatim>\<open>docker-email\<close> that is empty in \<open>X\<close> is absent. So the result is \<open>X\<close> itself, up
  to the empty \<^verbatim>\<open>docker-email\<close>, exactly when the values of \<open>X\<close> are valid UTF-8. The
  text is the one \<^verbatim>\<open>json.Marshal\<close> writes and \<^verbatim>\<open>json.Unmarshal\<close> reads it. The result
  does not depend on where the map iteration starts.
\<close>

theorem docker_round_trip_utf8:
  assumes valid: "valid_docker X"
  shows "\<exists>wire Y. BuildDockerConfigJSON Marshal X = Inr wire \<and>
           ParseDockerConfigJSON (Unmarshal describe) start wire = Inr Y \<and>
           map_of Y = (\<lambda>k. if k = ''docker-email'' \<and> map_of X k = Some [] then None
                            else map_option coerce_utf8 (map_of X k)) \<and>
           (map_of Y = (\<lambda>k. if k = ''docker-email'' \<and> map_of X k = Some [] then None
                             else map_of X k)
            \<longleftrightarrow> (\<forall>v \<in> ran (map_of X). ValidString v))"
proof -
  obtain wire Y where b: "BuildDockerConfigJSON Marshal X = Inr wire"
    and p: "ParseDockerConfigJSON (Unmarshal describe) start wire = Inr Y"
    and y: "map_of Y = (\<lambda>k. if k = ''docker-email'' \<and> map_of X k = Some [] then None
                             else map_option coerce_utf8 (map_of X k))"
    using docker_round_trip_coerced [OF valid, of describe start] by blast
  have "map_of Y = (\<lambda>k. if k = ''docker-email'' \<and> map_of X k = Some [] then None
                         else map_of X k)
        \<longleftrightarrow> (\<forall>v \<in> ran (map_of X). ValidString v)"
    unfolding y by (rule reproduced_iff)
  with b p y show ?thesis by blast
qed

theorem docker_round_trip_utf8_witness:
  "valid_docker ghcr_entries \<and>
   ValidString ''https://ghcr.io'' \<and> ValidString ''u'' \<and> ValidString ''p'' \<and> ValidString '''' \<and>
   BuildDockerConfigJSON Marshal ghcr_entries = Inr ghcr_text \<and>
   (\<exists>Y. ParseDockerConfigJSON (Unmarshal short_error) 0 ghcr_text = Inr Y \<and>
        map_of Y ''docker-server'' = Some ''https://ghcr.io'' \<and>
        map_of Y ''docker-username'' = Some ''u'' \<and>
        map_of Y ''docker-password'' = Some ''p'' \<and>
        map_of Y ''docker-email'' = None)"
proof -
  have v: "valid_docker ghcr_entries"
    by (simp add: valid_docker_def required_keys_def ghcr_entries_def missing_def)
  have s: "ValidString ''https://ghcr.io''" "ValidString ''u''" "ValidString ''p''"
    "ValidString ''''"
    by (simp_all add: ValidString.simps)
  have u: "\<forall>v \<in> ran (map_of ghcr_entries). ValidString v"
    using s by (auto simp: ghcr_entries_def ran_def split: if_splits)
  have b: "BuildDockerConfigJSON Marshal ghcr_entries = Inr ghcr_text"
    by code_simp
  from docker_round_trip_utf8 [OF v, of short_error 0]
  obtain wire Y where "BuildDockerConfigJSON Marshal ghcr_entries = Inr wire"
    and "ParseDockerConfigJSON (Unmarshal short_error) 0 wire = Inr Y"
    and "map_of Y = (\<lambda>k. if k = ''docker-email'' \<and> map_of ghcr_entries k = Some [] then None
                           else map_of ghcr_entries k)
         \<longleftrightarrow> (\<forall>v \<in> ran (map_of ghcr_entries). ValidString v)"
    by blast
  with b u have "ParseDockerConfigJSON (Unmarshal short_error) 0 ghcr_text = Inr Y \<and>
        map_of Y ''docker-server'' = Some ''https://ghcr.io'' \<and>
        map_of Y ''docker-username'' = Some ''u'' \<and>
        map_of Y ''docker-password'' = Some ''p'' \<and>
        map_of Y ''docker-email'' = None"
    by (simp add: ghcr_entries_def)
  with v s b show ?thesis by blast
qed

section \<open>Properties of the content parser\<close>

lemma IndexByte_eq:
  "IndexByte s c = (if c \<in> set s then Some (length (takeWhile (\<lambda>x. x \<noteq> c) s)) else None)"
  by (induction s) auto

lemma take_takeWhile_len: "take (length (takeWhile P s)) s = takeWhile P s"
  by (induction s) auto

lemma drop_takeWhile_len: "drop (length (takeWhile P s)) s = dropWhile P s"
  by (induction s) auto

lemma SplitN_2:
  "SplitN s c 2 = (if c \<in> set s
                   then [takeWhile (\<lambda>x. x \<noteq> c) s, drop 1 (dropWhile (\<lambda>x. x \<noteq> c) s)]
                   else [s])"
proof -
  have "drop (Suc (length (takeWhile (\<lambda>x. x \<noteq> c) s))) s = drop 1 (dropWhile (\<lambda>x. x \<noteq> c) s)"
    using drop_takeWhile_len [of "\<lambda>x. x \<noteq> c" s] by (metis One_nat_def drop_drop plus_1_eq_Suc)
  then show ?thesis
    by (simp add: numeral_2_eq_2 IndexByte_eq take_takeWhile_len)
qed

lemma takeWhile_first: "c \<notin> set k \<Longrightarrow> takeWhile (\<lambda>x. x \<noteq> c) (k @ c # v) = k"
  by (induction k) auto

lemma dropWhile_first: "c \<notin> set k \<Longrightarrow> dropWhile (\<lambda>x. x \<noteq> c) (k @ c # v) = c # v"
  by (induction k) auto

lemma SplitN_first:
  assumes "c \<notin> set k"
  shows "SplitN (k @ c # v) c 2 = [k, v]"
  using assms by (simp add: SplitN_2 takeWhile_first dropWhile_first)

lemma parse_lines_step:
  "parse_lines n (raw # rest) data t =
     (if n = 0 \<and> type_comment (TrimSpace raw)
      then parse_lines (Suc n) rest data (extractTypeFromComment (TrimSpace raw))
      else if \<not> value_line (TrimSpace raw) then parse_lines (Suc n) rest data t
      else if malformed (TrimSpace raw) then Inl (invalid_line (Suc n) (TrimSpace raw))
      else parse_lines (Suc n) rest
             (AList.update (line_key (TrimSpace raw)) (line_value (TrimSpace raw)) data) t)"
  by (auto simp: Let_def SplitN_2 type_comment_def value_line_def malformed_def
      line_key_def line_value_def)


lemma type_comment_not_value: "type_comment l \<Longrightarrow> \<not> value_line l"
  by (simp add: type_comment_def value_line_def)

lemma malformed_value: "malformed l \<Longrightarrow> value_line l"
  by (simp add: malformed_def)

lemma entries_of_Cons:
  "entries_of (l # ls) = (if value_line l then (line_key l, line_value l) # entries_of ls
                          else entries_of ls)"
  by (simp add: entries_of_def)

lemma parse_lines_later:
  assumes "\<forall>l\<in>set ls. \<not> malformed (TrimSpace l)" and "0 < n"
  shows "parse_lines n ls data t = Inr (fold put (entries_of (map TrimSpace ls)) data, t)"
  using assms
proof (induction ls arbitrary: n data)
  case Nil
  then show ?case by (simp add: entries_of_def)
next
  case (Cons raw rest)
  then show ?case
    by (simp only: parse_lines_step) (simp add: entries_of_Cons put_def)
qed

lemma parse_lines_ok:
  assumes "\<forall>l\<in>set ls. \<not> malformed (TrimSpace l)"
  shows "parse_lines 0 ls data t
         = Inr (fold put (entries_of (map TrimSpace ls)) data, first_type (map TrimSpace ls) t)"
proof (cases ls)
  case Nil
  then show ?thesis by (simp add: entries_of_def first_type_def)
next
  case (Cons raw rest)
  with assms have rest: "\<forall>l\<in>set rest. \<not> malformed (TrimSpace l)"
    and hd: "\<not> malformed (TrimSpace raw)" by simp_all
  show ?thesis
    unfolding Cons
    by (simp only: parse_lines_step)
       (auto simp: parse_lines_later [OF rest] entries_of_Cons put_def first_type_def hd
         dest: type_comment_not_value)
qed


lemma map_of_put: "map_of (put e d) = (map_of d)(fst e \<mapsto> snd e)"
  by (simp add: put_def update_conv')

lemma map_of_fold_put:
  "map_of (fold put es d) = map_of d ++ map_of (rev es)"
proof (induction es arbitrary: d)
  case Nil
  then show ?case by simp
next
  case (Cons e es)
  show ?case
    by (simp add: Cons.IH map_of_put map_add_def fun_eq_iff split: option.splits)
qed

lemma map_of_rev_last:
  assumes "es = before @ (k, v) # after" and "k \<notin> fst ` set after"
  shows "map_of (rev es) k = Some v"
proof -
  have "map_of (rev after) k = None"
    using assms(2) by (simp add: map_of_eq_None_iff)
  then show ?thesis
    by (simp add: assms(1) map_add_def)
qed


lemma parse_lines_Inr:
  "parse_lines n ls data t = Inr r \<Longrightarrow> \<forall>l\<in>set ls. \<not> malformed (TrimSpace l)"
proof (induction ls arbitrary: n data t)
  case Nil
  then show ?case by simp
next
  case (Cons raw rest)
  from Cons.prems have "\<not> malformed (TrimSpace raw)"
    by (auto simp only: parse_lines_step dest: type_comment_not_value malformed_value split: if_splits)
  moreover from Cons.prems have "\<exists>m d u. parse_lines m rest d u = Inr r"
    by (simp only: parse_lines_step split: if_splits) blast+
  ultimately show ?case using Cons.IH by auto
qed

lemma parse_content_ok:
  assumes "Scan content = (ls, None)" and "\<forall>l\<in>set ls. \<not> malformed (TrimSpace l)"
  shows "parseSecretContent content
         = Inr (fold put (entries_of (map TrimSpace ls)) [],
                mapSecretType (first_type (map TrimSpace ls) ''Opaque''))"
  using assms by (simp add: parseSecretContent_def parse_lines_ok)

lemma parse_content_Inr:
  assumes "Scan content = (ls, err)" and "parseSecretContent content = Inr r"
  shows "err = None \<and> (\<forall>l\<in>set ls. \<not> malformed (TrimSpace l))"
proof -
  from assms obtain r' where "parse_lines 0 ls [] ''Opaque'' = Inr r'" and "err = None"
    by (auto simp: parseSecretContent_def split: sum.splits option.splits)
  then show ?thesis using parse_lines_Inr by blast
qed




lemma mapSecretType_Opaque: "mapSecretType ''Opaque'' = ''Opaque''"
  by (simp add: mapSecretType_def)


lemma dropWhile_blanks:
  assumes "\<forall>c\<in>set ws. re_space c" and "r \<noteq> []" and "\<not> re_space (hd r)"
  shows "dropWhile re_space (ws @ r) = r"
  using assms by (induction ws) (auto simp: neq_Nil_conv)

lemma directive_extract:
  assumes "directive l v"
  shows "extractTypeFromComment l = TrimSpace (takeWhile (\<lambda>c. c \<noteq> CHR 0x0A) v)"
proof -
  from assms obtain ws1 ws2 ws3 where l: "l = ''#'' @ ws1 @ ''type'' @ ws2 @ ''='' @ ws3 @ v"
    and ws: "\<forall>c\<in>set ws1. re_space c" "\<forall>c\<in>set ws2. re_space c" "\<forall>c\<in>set ws3. re_space c"
    and v: "v \<noteq> []" "\<not> re_space (hd v)"
    by (auto simp: directive_def)
  define b where "b = ''='' @ ws3 @ v"
  define a where "a = ''type'' @ ws2 @ b"
  have la: "l = ''#'' @ ws1 @ a" by (simp add: l a_def b_def)
  have f0: "HasPrefix l ''#''" by (simp add: la HasPrefix_def)
  have "dropWhile re_space (ws1 @ a) = a"
    using ws(1) by (intro dropWhile_blanks) (simp_all add: a_def re_space_def)
  then have f1: "dropWhile re_space (drop 1 l) = a" by (simp add: la)
  have f2: "HasPrefix a ''type''" by (simp add: a_def HasPrefix_def)
  have "dropWhile re_space (ws2 @ b) = b"
    using ws(2) by (intro dropWhile_blanks) (simp_all add: b_def re_space_def)
  then have f3: "dropWhile re_space (drop 4 a) = b" by (simp add: a_def)
  have f4: "HasPrefix b ''=''" by (simp add: b_def HasPrefix_def)
  have "dropWhile re_space (ws3 @ v) = v"
    using ws(3) v by (intro dropWhile_blanks)
  then have f5: "dropWhile re_space (drop 1 b) = v" by (simp add: b_def)
  show ?thesis
    unfolding extractTypeFromComment_def Let_def f1 f3 f5 using f0 f2 f4 by simp
qed

lemma trim_runes_Nil: "trim_runes rs [] = []"
  by (subst trim_runes.simps) (auto simp: HasPrefix_def find_Some_iff split: option.splits)

lemma TrimSpace_Nil: "TrimSpace [] = []"
  by (simp add: TrimSpace_def trim_runes_Nil)

lemma HasPrefix_split: "HasPrefix s p \<Longrightarrow> s = p @ drop (length p) s"
  by (metis HasPrefix_def append_take_drop_id)

lemma extract_directive:
  assumes "extractTypeFromComment l \<noteq> []"
  shows "\<exists>v. directive l v \<and> extractTypeFromComment l = TrimSpace (takeWhile (\<lambda>c. c \<noteq> CHR 0x0A) v)"
proof -
  define r1 where "r1 = dropWhile re_space (drop 1 l)"
  define r2 where "r2 = dropWhile re_space (drop 4 r1)"
  define v where "v = dropWhile re_space (drop 1 r2)"
  from assms have p0: "HasPrefix l ''#''" and p1: "HasPrefix r1 ''type''"
    and p2: "HasPrefix r2 ''=''"
    and res: "extractTypeFromComment l = TrimSpace (takeWhile (\<lambda>c. c \<noteq> CHR 0x0A) v)"
    by (auto simp: extractTypeFromComment_def Let_def r1_def r2_def v_def split: if_splits)
  from res assms have "v \<noteq> []" by (auto simp: TrimSpace_Nil)
  moreover then have "\<not> re_space (hd v)" unfolding v_def by (rule hd_dropWhile)
  moreover have "l = ''#'' @ takeWhile re_space (drop 1 l) @ ''type''
                    @ takeWhile re_space (drop 4 r1) @ ''='' @ takeWhile re_space (drop 1 r2) @ v"
  proof -
    have "l = ''#'' @ drop 1 l" using HasPrefix_split [OF p0] by simp
    also have "drop 1 l = takeWhile re_space (drop 1 l) @ r1" by (simp add: r1_def)
    also have "r1 = ''type'' @ drop 4 r1" using HasPrefix_split [OF p1] by (simp add: eval_nat_numeral)
    also have "drop 4 r1 = takeWhile re_space (drop 4 r1) @ r2" by (simp add: r2_def)
    also have "r2 = ''='' @ drop 1 r2" using HasPrefix_split [OF p2] by simp
    also have "drop 1 r2 = takeWhile re_space (drop 1 r2) @ v" by (simp add: v_def)
    finally show ?thesis by simp
  qed
  moreover have "\<forall>c\<in>set (takeWhile re_space (drop 1 l) @ takeWhile re_space (drop 4 r1)
                          @ takeWhile re_space (drop 1 r2)). re_space c"
    by (auto dest: set_takeWhileD)
  ultimately have "directive l v" unfolding directive_def by blast
  with res show ?thesis by blast
qed



lemma raw_lines_no_LF: "l \<in> set (raw_lines s) \<Longrightarrow> CHR 0x0A \<notin> set l"
proof (induction s arbitrary: l)
  case Nil
  then show ?case by simp
next
  case (Cons c cs)
  then show ?case
    by (cases "raw_lines cs") (auto split: if_splits)
qed

lemma set_dropCR: "set (dropCR d) \<subseteq> set d"
  by (auto simp: dropCR_def dest: in_set_butlastD)

lemma Scan_lines:
  assumes "Scan content = (ls, err)" and "l \<in> set ls"
  shows "\<exists>r\<in>set (raw_lines content). l = dropCR r"
proof -
  from assms(1) have "ls = map dropCR (takeWhile (\<lambda>l. length l < MaxScanTokenSize) (raw_lines content))"
    by (simp add: Scan_def Let_def)
  with assms(2) obtain r where "r \<in> set (takeWhile (\<lambda>l. length l < MaxScanTokenSize) (raw_lines content))"
    and "l = dropCR r" by auto
  then show ?thesis by (blast dest: set_takeWhileD)
qed

lemma Scan_no_LF:
  assumes "Scan content = (ls, err)" and "l \<in> set ls"
  shows "CHR 0x0A \<notin> set l"
  using Scan_lines [OF assms] raw_lines_no_LF set_dropCR by blast

lemma set_trim_runes: "set (trim_runes rs s) \<subseteq> set s"
proof (induction rs s rule: trim_runes.induct)
  case (1 runes s)
  show ?case
  proof (cases "find (\<lambda>r. r \<noteq> [] \<and> HasPrefix s r) runes")
    case None
    then show ?thesis by (subst trim_runes.simps) simp
  next
    case (Some r)
    with 1 have "set (trim_runes runes (drop (length r) s)) \<subseteq> set (drop (length r) s)"
      by simp
    also have "\<dots> \<subseteq> set s" by (rule set_drop_subset)
    finally show ?thesis using Some by (subst trim_runes.simps) simp
  qed
qed

lemma set_TrimSpace: "set (TrimSpace s) \<subseteq> set s"
proof -
  have "set (TrimSpace s) = set (trim_runes (map rev space_runes) (rev (trim_runes space_runes s)))"
    by (simp add: TrimSpace_def)
  also have "\<dots> \<subseteq> set (rev (trim_runes space_runes s))" by (rule set_trim_runes)
  also have "\<dots> \<subseteq> set s" using set_trim_runes by simp
  finally show ?thesis .
qed

lemma directive_value_no_LF:
  assumes "directive l v" and "CHR 0x0A \<notin> set l"
  shows "takeWhile (\<lambda>c. c \<noteq> CHR 0x0A) v = v"
proof -
  from assms(1) have "set v \<subseteq> set l" by (auto simp: directive_def)
  with assms(2) show ?thesis by (auto intro: takeWhile_eq_all_conv [THEN iffD2])
qed

lemma directive_HasPrefix: "directive l v \<Longrightarrow> HasPrefix l ''#''"
  by (auto simp: directive_def HasPrefix_def)

lemma type_comment_iff:
  assumes "CHR 0x0A \<notin> set l"
  shows "type_comment l \<longleftrightarrow> (\<exists>v. directive l v \<and> TrimSpace v \<noteq> [])"
proof
  assume "type_comment l"
  then have "extractTypeFromComment l \<noteq> []" by (simp add: type_comment_def)
  from extract_directive [OF this] obtain v where v: "directive l v"
    and "extractTypeFromComment l = TrimSpace (takeWhile (\<lambda>c. c \<noteq> CHR 0x0A) v)" by blast
  with \<open>extractTypeFromComment l \<noteq> []\<close> directive_value_no_LF [OF v assms]
  show "\<exists>v. directive l v \<and> TrimSpace v \<noteq> []" by auto
next
  assume "\<exists>v. directive l v \<and> TrimSpace v \<noteq> []"
  then obtain v where v: "directive l v" and ne: "TrimSpace v \<noteq> []" by blast
  from directive_extract [OF v] directive_value_no_LF [OF v assms] ne
  show "type_comment l" by (simp add: type_comment_def directive_HasPrefix [OF v])
qed

lemma type_comment_value:
  assumes "CHR 0x0A \<notin> set l" and "directive l v"
  shows "extractTypeFromComment l = TrimSpace v"
  using directive_extract [OF assms(2)] directive_value_no_LF [OF assms(2,1)] by simp


lemma parse_content_scanned:
  "Scan content = (ls, err) \<Longrightarrow>
   parseSecretContent content =
     (case parse_lines 0 ls [] ''Opaque'' of
        Inl e \<Rightarrow> Inl e
      | Inr (data, secretType) \<Rightarrow>
          (case err of
             Some e \<Rightarrow> Inl (''error reading content: '' @ e)
           | None \<Rightarrow> Inr (data, mapSecretType secretType)))"
  by (simp add: parseSecretContent_def)




text \<open>
  Claim C8. The first line of the input is read after trimming. When it has the shape
  \<^verbatim>\<open># type = <value>\<close>, with any blanks around \<^verbatim>\<open>type\<close> and \<^verbatim>\<open>=\<close>, a successful parse
  returns the type that the alias table gives for the trimmed value, and the entries
  are those of the remaining lines: the line contributes none. When the first line
  has no such shape, or there is no line, the type is \<^verbatim>\<open>Opaque\<close>; a type comment on a
  later line is an ordinary comment.
\<close>

theorem type_comment_on_first_line:
  assumes scan: "Scan content = (ls, err)"
    and ok: "parseSecretContent content = Inr (data, t)"
  shows "(ls = [] \<longrightarrow> t = ''Opaque'') \<and>
         (\<forall>raw rest. ls = raw # rest \<longrightarrow>
            (\<forall>v. directive (TrimSpace raw) v \<and> TrimSpace v \<noteq> [] \<longrightarrow>
                 t = mapSecretType (TrimSpace v) \<and>
                 map_of data = map_of (rev (entries_of (map TrimSpace rest)))) \<and>
            ((\<nexists>v. directive (TrimSpace raw) v \<and> TrimSpace v \<noteq> []) \<longrightarrow> t = ''Opaque''))"
proof -
  from parse_content_Inr [OF scan ok] have err: "err = None"
    and wf: "\<forall>l\<in>set ls. \<not> malformed (TrimSpace l)" by simp_all
  from parse_content_ok [OF scan [unfolded err] wf] ok
  have data: "data = fold put (entries_of (map TrimSpace ls)) []"
    and t: "t = mapSecretType (first_type (map TrimSpace ls) ''Opaque'')" by simp_all
  have empty: "ls = [] \<longrightarrow> t = ''Opaque''"
    by (simp add: t first_type_def mapSecretType_Opaque)
  have first: "(\<forall>v. directive (TrimSpace raw) v \<and> TrimSpace v \<noteq> [] \<longrightarrow>
                 t = mapSecretType (TrimSpace v) \<and>
                 map_of data = map_of (rev (entries_of (map TrimSpace rest)))) \<and>
            ((\<nexists>v. directive (TrimSpace raw) v \<and> TrimSpace v \<noteq> []) \<longrightarrow> t = ''Opaque'')"
    if ls: "ls = raw # rest" for raw rest
  proof -
    let ?l = "TrimSpace raw"
    have "CHR 0x0A \<notin> set raw" using Scan_no_LF [OF scan] ls by simp
    then have nolf: "CHR 0x0A \<notin> set ?l" using set_TrimSpace by blast
    show ?thesis
    proof (intro conjI allI impI)
      fix v assume v: "directive ?l v \<and> TrimSpace v \<noteq> []"
      then have tc: "type_comment ?l" using type_comment_iff [OF nolf] by blast
      from v have val: "extractTypeFromComment ?l = TrimSpace v"
        using type_comment_value [OF nolf] by blast
      show "t = mapSecretType (TrimSpace v)"
        by (simp add: t ls first_type_def tc val)
      have "entries_of (map TrimSpace ls) = entries_of (map TrimSpace rest)"
        using type_comment_not_value [OF tc] by (simp add: ls entries_of_Cons)
      then show "map_of data = map_of (rev (entries_of (map TrimSpace rest)))"
        by (simp add: data map_of_fold_put)
    next
      assume "\<nexists>v. directive ?l v \<and> TrimSpace v \<noteq> []"
      then have "\<not> type_comment ?l" using type_comment_iff [OF nolf] by blast
      then show "t = ''Opaque''"
        by (simp add: t ls first_type_def mapSecretType_Opaque)
    qed
  qed
  from empty first show ?thesis by blast
qed

lemma directive_sample: "directive ''#  type = tls'' ''tls''"
  unfolding directive_def
  by (rule exI [of _ "''  ''"], rule exI [of _ "'' ''"], rule exI [of _ "'' ''"])
     (simp add: re_space_def)

theorem type_comment_on_first_line_witness:
  "Scan ''#  type = tls\<newline>A=1'' = ([''#  type = tls'', ''A=1''], None) \<and>
   directive (TrimSpace ''#  type = tls'') ''tls'' \<and> TrimSpace ''tls'' \<noteq> [] \<and>
   parseSecretContent ''#  type = tls\<newline>A=1'' = Inr ([(''A'', ''1'')], ''kubernetes.io/tls'') \<and>
   Scan ''\<newline># type=tls\<newline>A=1'' = (['''', ''# type=tls'', ''A=1''], None) \<and>
   (\<nexists>v. directive (TrimSpace '''') v \<and> TrimSpace v \<noteq> []) \<and>
   parseSecretContent ''\<newline># type=tls\<newline>A=1'' = Inr ([(''A'', ''1'')], ''Opaque'')"
proof -
  have s1: "Scan ''#  type = tls\<newline>A=1'' = ([''#  type = tls'', ''A=1''], None)"
    by (simp add: Scan_def MaxScanTokenSize_def dropCR_def)
  have "parse_lines 0 [''#  type = tls'', ''A=1''] [] ''Opaque'' = Inr ([(''A'', ''1'')], ''tls'')"
    by code_simp
  then have p1: "parseSecretContent ''#  type = tls\<newline>A=1''
            = Inr ([(''A'', ''1'')], ''kubernetes.io/tls'')"
    by (simp add: parse_content_scanned [OF s1] mapSecretType_def)
  have t1: "TrimSpace ''#  type = tls'' = ''#  type = tls''" and t2: "TrimSpace ''tls'' = ''tls''"
    by code_simp+
  have d1: "directive (TrimSpace ''#  type = tls'') ''tls''"
    using directive_sample by (simp only: t1)
  have s2: "Scan ''\<newline># type=tls\<newline>A=1'' = (['''', ''# type=tls'', ''A=1''], None)"
    by (simp add: Scan_def MaxScanTokenSize_def dropCR_def)
  have "parse_lines 0 ['''', ''# type=tls'', ''A=1''] [] ''Opaque'' = Inr ([(''A'', ''1'')], ''Opaque'')"
    by code_simp
  then have p2: "parseSecretContent ''\<newline># type=tls\<newline>A=1'' = Inr ([(''A'', ''1'')], ''Opaque'')"
    by (simp add: parse_content_scanned [OF s2] mapSecretType_def)
  have n2: "\<nexists>v. directive (TrimSpace '''') v \<and> TrimSpace v \<noteq> []"
    by (simp add: TrimSpace_Nil directive_def)
  have u1: "''kubernetes.io/tls'' = mapSecretType (TrimSpace ''tls'')"
    using type_comment_on_first_line [OF s1 p1, THEN conjunct2, rule_format, OF refl, THEN conjunct1,
        rule_format, of "''tls''", THEN conjunct1] d1
    by (simp add: t2)
  have u2: "''Opaque'' = ''Opaque''"
    using type_comment_on_first_line [OF s2 p2, THEN conjunct2, rule_format, OF refl, THEN conjunct2,
        rule_format, OF n2] .
  from u1 u2 s1 d1 p1 s2 n2 p2 show ?thesis
    by (simp add: t2)
qed

text \<open>
  Claim C10. When the scanner read the whole input and no value line lacks its
  \<^verbatim>\<open>=\<close>, the parse succeeds, whether or not a key occurs on several lines; and
  for a key \<open>k\<close> the map holds the value of the last line that assigns \<open>k\<close>.
\<close>

theorem duplicate_keys_last_wins:
  assumes "Scan content = (ls, None)" and "\<forall>l\<in>set ls. \<not> malformed (TrimSpace l)"
  shows "\<exists>data t. parseSecretContent content = Inr (data, t) \<and>
           (\<forall>before k v after.
               entries_of (map TrimSpace ls) = before @ (k, v) # after \<and> k \<notin> fst ` set after
               \<longrightarrow> map_of data k = Some v)"
proof -
  let ?data = "fold put (entries_of (map TrimSpace ls)) []"
  have ok: "parseSecretContent content
        = Inr (?data, mapSecretType (first_type (map TrimSpace ls) ''Opaque''))"
    using assms by (rule parse_content_ok)
  have last: "map_of ?data k = Some v"
    if "entries_of (map TrimSpace ls) = before @ (k, v) # after \<and> k \<notin> fst ` set after"
    for before k v after
  proof -
    have "map_of (rev (entries_of (map TrimSpace ls))) k = Some v"
      using conjunct1 [OF that] conjunct2 [OF that] by (rule map_of_rev_last)
    then show ?thesis by (simp add: map_of_fold_put)
  qed
  show ?thesis
  proof (intro exI conjI allI impI)
    show "parseSecretContent content
        = Inr (?data, mapSecretType (first_type (map TrimSpace ls) ''Opaque''))"
      by (rule ok)
  next
    fix before k v after
    assume "entries_of (map TrimSpace ls) = before @ (k, v) # after \<and> k \<notin> fst ` set after"
    then show "map_of ?data k = Some v" by (rule last)
  qed
qed

theorem duplicate_keys_last_wins_witness:
  "Scan ''A=1\<newline>B=2\<newline>A=3'' = ([''A=1'', ''B=2'', ''A=3''], None) \<and>
   \<not> malformed (TrimSpace ''A=1'') \<and> \<not> malformed (TrimSpace ''B=2'') \<and>
   \<not> malformed (TrimSpace ''A=3'') \<and>
   (\<exists>data t. parseSecretContent ''A=1\<newline>B=2\<newline>A=3'' = Inr (data, t) \<and>
       map_of data ''A'' = Some ''3'' \<and> map_of data ''B'' = Some ''2'')"
proof -
  have s: "Scan ''A=1\<newline>B=2\<newline>A=3'' = ([''A=1'', ''B=2'', ''A=3''], None)"
    by (simp add: Scan_def MaxScanTokenSize_def dropCR_def)
  have m: "\<forall>l\<in>set [''A=1'', ''B=2'', ''A=3'']. \<not> malformed (TrimSpace l)"
    by code_simp
  have e: "entries_of (map TrimSpace [''A=1'', ''B=2'', ''A=3''])
           = [(''A'', ''1''), (''B'', ''2'')] @ (''A'', ''3'') # []"
    and e': "entries_of (map TrimSpace [''A=1'', ''B=2'', ''A=3''])
           = [(''A'', ''1'')] @ (''B'', ''2'') # [(''A'', ''3'')]"
    by code_simp+
  from duplicate_keys_last_wins [OF s m] obtain data t
    where p: "parseSecretContent ''A=1\<newline>B=2\<newline>A=3'' = Inr (data, t)"
      and l': "\<forall>before k v after.
               entries_of (map TrimSpace [''A=1'', ''B=2'', ''A=3'']) = before @ (k, v) # after
                 \<and> k \<notin> fst ` set after
               \<longrightarrow> map_of data k = Some v"
    by (elim exE conjE)
  have l: "map_of data k = Some v"
    if "entries_of (map TrimSpace [''A=1'', ''B=2'', ''A=3'']) = before @ (k, v) # after
                 \<and> k \<notin> fst ` set after" for before k v after
    using l' [rule_format, OF that] .
  have "map_of data ''A'' = Some ''3''"
    by (rule l [of "[(''A'', ''1''), (''B'', ''2'')]" "''A''" "''3''" "[]"]) (rule conjI, rule e, simp)
  moreover have "map_of data ''B'' = Some ''2''"
    by (rule l [of "[(''A'', ''1'')]" "''B''" "''2''" "[(''A'', ''3'')]"]) (rule conjI, rule e', simp)
  ultimately have "\<exists>data t. parseSecretContent ''A=1\<newline>B=2\<newline>A=3'' = Inr (data, t) \<and>
       map_of data ''A'' = Some ''3'' \<and> map_of data ''B'' = Some ''2''"
    using p by (intro exI conjI)
  with s m show ?thesis by simp
qed


section \<open>Properties of the comparisons\<close>


lemma different_iff:
  "different a b k \<longleftrightarrow> \<not> has_key a k \<or> \<not> has_key b k \<or> index a k \<noteq> index b k"
  by (auto simp: different_def has_key_def index_def split: option.splits)

lemma local_loop_eq:
  "local_loop ns1 ns2 d1 d2 verbose keys (n, out)
   = (n + length (filter (different d1 d2) keys),
      out @ concat (map (local_report ns1 ns2 d1 d2 verbose) keys))"
proof (induction keys arbitrary: n out)
  case Nil
  then show ?case by simp
next
  case (Cons k keys)
  show ?case
    by (simp add: Let_def Cons.IH local_report_def different_iff)
qed

lemma remote_loop_eq:
  "remote_loop name onsite remote verbose keys (n, out)
   = (n + length (filter (different onsite remote) keys),
      out @ concat (map (remote_report name onsite remote verbose) keys))"
proof (induction keys arbitrary: n out)
  case Nil
  then show ?case by simp
next
  case (Cons k keys)
  show ?case
    by (simp add: Let_def Cons.IH remote_report_def different_iff)
qed

lemma set_all_keys: "set (all_keys a b) = fst ` set a \<union> fst ` set b"
  by (simp add: all_keys_def)

lemma sorted_all_keys: "sorted (all_keys a b) \<and> distinct (all_keys a b)"
  by (simp add: all_keys_def)


text \<open>
  Claim C5, as stated, fails for the comparison against the cluster: without the
  verbose flag a key whose values agree is in the union of the keys and nothing is
  written for it.
\<close>

theorem compareSecretsRemote_silent_on_equal_key:
  "''K'' \<in> set (all_keys [(''K'', ''1'')] [(''K'', ''1'')]) \<and>
   compareSecretsRemote ''live/app'' [(''K'', ''1'')] [(''K'', ''1'')] False = (0, [])"
  by code_simp

text \<open>
  Claim C5, amended. Both comparisons walk over the keys of the union of the two maps
  in ascending order, each key once. Between two local maps every key is written,
  followed by the pair of values exactly when the key is different. Against the
  cluster the key is written when it is different or the verbose flag is set, and
  the pair of values exactly when the key is different. The verbose flag changes
  how a value is rendered, never whether the pair is written. The number returned
  is the number of different keys.
\<close>

theorem comparison_reports:
  "compareSecretsLocal ns1 ns2 data1 data2 verbose
     = (length (filter (different data1 data2) (all_keys data1 data2)),
        concat (map (local_report ns1 ns2 data1 data2 verbose) (all_keys data1 data2)))
   \<and> compareSecretsRemote secretName onsite remote verbose
     = (length (filter (different onsite remote) (all_keys onsite remote)),
        concat (map (remote_report secretName onsite remote verbose) (all_keys onsite remote)))
   \<and> set (all_keys a b) = fst ` set a \<union> fst ` set b
   \<and> sorted (all_keys a b) \<and> distinct (all_keys a b)
   \<and> length (local_report ns1 ns2 data1 data2 verbose k)
       = (if different data1 data2 k then 3 else 1)
   \<and> length (remote_report secretName onsite remote verbose k)
       = (if different onsite remote k then 3 else if verbose then 1 else 0)"
  by (simp add: compareSecretsLocal_def compareSecretsRemote_def local_loop_eq remote_loop_eq
      set_all_keys sorted_all_keys local_report_def remote_report_def)

theorem comparison_reports_witness:
  "compareSecretsLocal ''live'' ''test'' [(''K'', ''1''), (''A'', ''x'')] [(''K'', ''1'')] False
     = (1, [''A'', ''  live: [x]'', ''  test: missing'', ''K''])
   \<and> compareSecretsRemote ''live/app'' [(''K'', ''1''), (''A'', ''x'')] [(''K'', ''1'')] False
     = (1, [''live/app/A'', ''  remote: missing'', ''  onsite: [x]''])
   \<and> compareSecretsRemote ''live/app'' [(''K'', ''1''), (''A'', ''x'')] [(''K'', ''1'')] True
     = (1, [''live/app/A'', ''  remote: missing'', ''  onsite: [x]'', ''live/app/K''])"
proof -
  have k: "all_keys [(''K'', ''1''), (''A'', ''x'')] [(''K'', ''1'')] = [''A'', ''K'']"
    by code_simp
  have d: "different [(''K'', ''1''), (''A'', ''x'')] [(''K'', ''1'')] ''A''"
    "\<not> different [(''K'', ''1''), (''A'', ''x'')] [(''K'', ''1'')] ''K''"
    by code_simp+
  have l: "local_report ''live'' ''test'' [(''K'', ''1''), (''A'', ''x'')] [(''K'', ''1'')] False ''A''
           = [''A'', ''  live: [x]'', ''  test: missing'']"
    "local_report ''live'' ''test'' [(''K'', ''1''), (''A'', ''x'')] [(''K'', ''1'')] False ''K''
           = [''K'']"
    by code_simp+
  have r: "remote_report ''live/app'' [(''K'', ''1''), (''A'', ''x'')] [(''K'', ''1'')] False ''A''
           = [''live/app/A'', ''  remote: missing'', ''  onsite: [x]'']"
    "remote_report ''live/app'' [(''K'', ''1''), (''A'', ''x'')] [(''K'', ''1'')] False ''K'' = []"
    "remote_report ''live/app'' [(''K'', ''1''), (''A'', ''x'')] [(''K'', ''1'')] True ''A''
           = [''live/app/A'', ''  remote: missing'', ''  onsite: [x]'']"
    "remote_report ''live/app'' [(''K'', ''1''), (''A'', ''x'')] [(''K'', ''1'')] True ''K''
           = [''live/app/K'']"
    by code_simp+
  show ?thesis
    using comparison_reports [of "''live''" "''test''" "[(''K'', ''1''), (''A'', ''x'')]"
        "[(''K'', ''1'')]" False "''live/app''" "[(''K'', ''1''), (''A'', ''x'')]" "[(''K'', ''1'')]"]
      comparison_reports [of "''live''" "''test''" "[(''K'', ''1''), (''A'', ''x'')]"
        "[(''K'', ''1'')]" True "''live/app''" "[(''K'', ''1''), (''A'', ''x'')]" "[(''K'', ''1'')]"]
    by (simp add: k d l r)
qed

section \<open>Properties of the driver\<close>

lemma upload_secret_counts:
  "secretsChanged (upload_secret e force doit verbose secret r)
     = secretsChanged r + (if 0 < differences_found e (cluster r) verbose secret then 1 else 0)"
  "keysChanged (upload_secret e force doit verbose secret r)
     = keysChanged r + differences_found e (cluster r) verbose secret"
  by (auto simp: upload_secret_def Let_def FromOnsiteSecret_def differences_found_def
      split: sum.splits prod.splits option.splits)

lemma upload_secret_writes:
  "writes (upload_secret e force doit verbose secret r)
     = (if doit \<and> (force \<or> 0 < differences_found e (cluster r) verbose secret)
           \<and> \<not> isl (ToKubernetesData e secret)
        then writes r @ [(Namespace secret, Name secret)] else writes r)"
  by (auto simp: upload_secret_def Let_def FromOnsiteSecret_def differences_found_def
      split: sum.splits prod.splits option.splits)

lemma upload_secret_dry:
  "\<not> doit \<Longrightarrow> cluster (upload_secret e force doit verbose secret r) = cluster r"
  by (auto simp: upload_secret_def Let_def FromOnsiteSecret_def
      split: sum.splits prod.splits option.splits)

lemma secretWrite_accepted:
  assumes "unavailable k = None" and "refuses k ns name t values = None"
  shows "stored (snd (snd (secretWrite k ns name t values))) (ns, name) = Some (t, values)"
    and "fst (secretWrite k ns name t values) = None"
  using assms by (auto simp: secretWrite_def split: option.splits)

lemma upload_secret_stored:
  assumes "doit" and "force \<or> 0 < differences_found e (cluster r) verbose secret"
    and "ToKubernetesData e secret = Inr k8sData"
    and "unavailable (cluster r) = None"
    and "refuses (cluster r) (Namespace secret) (Name secret) (Type secret) k8sData = None"
  shows "stored (cluster (upload_secret e force doit verbose secret r))
           (Namespace secret, Name secret) = Some (Type secret, k8sData)"
proof -
  have "cluster (upload_secret e force doit verbose secret r)
        = snd (snd (secretWrite (cluster r) (Namespace secret) (Name secret) (Type secret) k8sData))"
    using assms(1-3)
    by (auto simp: upload_secret_def Let_def FromOnsiteSecret_def differences_found_def
        split: sum.splits prod.splits option.splits)
  then show ?thesis using secretWrite_accepted(1) [OF assms(4,5)] by simp
qed

lemma fold_upload_dry:
  "writes (fold (upload_secret e force False verbose) secrets r) = writes r \<and>
   cluster (fold (upload_secret e force False verbose) secrets r) = cluster r"
  by (induction secrets arbitrary: r) (simp_all add: upload_secret_writes upload_secret_dry)

lemma upload_dry:
  "writes (snd (upload e k path force False verbose)) = [] \<and>
   cluster (snd (upload e k path force False verbose)) = k"
  by (simp add: upload_def initial_def Let_def fold_upload_dry split: sum.splits)

lemma absent_is_missing:
  assumes "stored k (ns, name) = None"
  shows "isl (FromRemoteSecret e k ns name t)"
  using assms by (simp add: FromRemoteSecret_def secretRead_def split: option.splits)

lemma upload_error_iff_load:
  "fst (upload e k path force doit verbose) = None \<longleftrightarrow> \<not> isl (LoadSecretsFromPath e path)"
  by (simp add: upload_def Let_def split: sum.splits)

lemma diffLocalVsLocal_error_iff_load:
  "fst (diffLocalVsLocal e path1 path2 verbose) = None \<longleftrightarrow>
     \<not> isl (LoadSecretsFromPath e path1) \<and> \<not> isl (LoadSecretsFromPath e path2)"
  by (simp add: diffLocalVsLocal_def Let_def split: sum.splits prod.splits)

lemma main_paths:
  "main e k fl (c # rest) = main e k fl [c, first_path rest, second_path rest]"
proof (cases rest)
  case Nil
  then show ?thesis by (simp add: main_def first_path_def second_path_def)
next
  case (Cons p ps)
  then show ?thesis
    by (cases ps) (simp_all add: main_def first_path_def second_path_def)
qed

lemma manifest_loop_error:
  "fst (manifest_loop e i secrets out) = None \<longleftrightarrow>
     \<not> list_ex (\<lambda>s. isl (ToKubernetesData e s)) secrets"
  by (induction secrets arbitrary: i out) (auto simp: Let_def split: sum.splits)

lemma handleManifest_error:
  "fst (handleManifest e path) = None \<longleftrightarrow>
     (case LoadSecretsFromPath e path of
        Inl err \<Rightarrow> False
      | Inr secrets \<Rightarrow> \<not> list_ex (\<lambda>s. isl (ToKubernetesData e s)) secrets)"
  by (auto simp: handleManifest_def manifest_loop_error split: sum.splits)

text \<open>
  Claim C1, as stated, fails: with the force flag and without the commit flag
  \<^verbatim>\<open>upload\<close> reports the secret as missing on the cluster and writes nothing.
\<close>

theorem forced_dry_run_writes_nothing:
  "force_flag dry_forced \<and> \<not> doit_flag dry_forced \<and>
   LoadSecretsFromPath (sample_env [app_secret]) ''secrets'' = Inr [app_secret] \<and>
   writes (snd (main (sample_env [app_secret]) empty_cluster dry_forced [''upload''])) = [] \<and>
   stored (cluster (snd (main (sample_env [app_secret]) empty_cluster dry_forced [''upload''])))
     (''live'', ''app'') = None \<and>
   stdout (snd (main (sample_env [app_secret]) empty_cluster dry_forced [''upload'']))
     = [''secret live/app is missing'', [], ''secrets changed: 1'', ''keys changed: 1'']"
  by code_simp

text \<open>
  Claim C1, amended. For every loaded secret the driver calls \<^verbatim>\<open>secretWrite\<close> exactly
  when the commit flag is set, and the force flag is set or at least one difference
  was found, and the conversion to wire form succeeds; the cluster then stores the
  wire form under the secret's namespace and name when the server accepts it.
  Without the commit flag the driver only reports, whatever the force flag: a whole
  run writes nothing and leaves the cluster as it was.
\<close>

theorem upload_writes_iff_commit:
  "writes (upload_secret e force doit verbose secret r)
     = (if doit \<and> (force \<or> 0 < differences_found e (cluster r) verbose secret)
           \<and> \<not> isl (ToKubernetesData e secret)
        then writes r @ [(Namespace secret, Name secret)] else writes r)
   \<and> (\<forall>k8sData.
         doit \<and> (force \<or> 0 < differences_found e (cluster r) verbose secret)
         \<and> ToKubernetesData e secret = Inr k8sData
         \<and> unavailable (cluster r) = None
         \<and> refuses (cluster r) (Namespace secret) (Name secret) (Type secret) k8sData = None
         \<longrightarrow> stored (cluster (upload_secret e force doit verbose secret r))
               (Namespace secret, Name secret) = Some (Type secret, k8sData))
   \<and> (\<not> doit \<longrightarrow> cluster (upload_secret e force doit verbose secret r) = cluster r)
   \<and> writes (snd (upload e k path force False verbose)) = []
   \<and> cluster (snd (upload e k path force False verbose)) = k"
  using upload_secret_writes upload_secret_stored upload_secret_dry upload_dry
  by (intro conjI allI impI) auto

theorem upload_writes_iff_commit_witness:
  "writes (upload_secret (sample_env [app_secret]) False True False app_secret
            (initial empty_cluster)) = [(''live'', ''app'')]
   \<and> stored (cluster (upload_secret (sample_env [app_secret]) False True False app_secret
                        (initial empty_cluster))) (''live'', ''app'')
       = Some (''Opaque'', [(''USER'', ''u''), (''PASS'', ''p'')])
   \<and> writes (upload_secret (sample_env [app_secret]) True False False app_secret
              (initial empty_cluster)) = []
   \<and> cluster (upload_secret (sample_env [app_secret]) True False False app_secret
               (initial empty_cluster)) = empty_cluster"
proof -
  let ?e = "sample_env [app_secret]" and ?r = "initial empty_cluster"
  have d: "differences_found ?e empty_cluster False app_secret = 1"
    by code_simp
  have c: "ToKubernetesData ?e app_secret = Inr [(''USER'', ''u''), (''PASS'', ''p'')]"
    by code_simp
  have u: "unavailable empty_cluster = None"
    and a: "refuses empty_cluster (Namespace app_secret) (Name app_secret) ''Opaque''
              [(''USER'', ''u''), (''PASS'', ''p'')] = None"
    and n: "(Namespace app_secret, Name app_secret) = (''live'', ''app'')"
    and t: "Type app_secret = ''Opaque''" and w: "writes ?r = []"
    and k: "cluster ?r = empty_cluster"
    by (simp_all add: initial_def empty_cluster_def app_secret_def)
  from upload_writes_iff_commit [of ?e False True False app_secret ?r]
    upload_writes_iff_commit [of ?e True False False app_secret ?r]
  show ?thesis
    by (simp add: d c u a n t w k)
qed

text \<open>
  Claim C2, as stated, fails: a local secret with two entries that is absent from
  the cluster adds one to \<^verbatim>\<open>keysChanged\<close>, not two.
\<close>

theorem absent_secret_counts_one_key:
  \<open>stored empty_cluster (''live'', ''app'') = None \<and>
   secretRead empty_cluster ''live'' ''app''
     = Inl ''error reading secret: secrets "app" not found'' \<and>
   length (Data app_secret) = 2 \<and>
   keysChanged (snd (upload (sample_env [app_secret]) empty_cluster ''secrets'' False False False))
     = 1\<close>
  by code_simp

text \<open>
  Claim C2, amended. For a local secret that the cluster does not hold, the
  comparison counts one difference, whatever the number of local entries; it is
  flagged at the level of the secret by the line \<open>secret \<langle>namespace\<rangle>/\<langle>name\<rangle> is missing\<close>,
  and it adds one to \<^verbatim>\<open>secretsChanged\<close> and one to \<^verbatim>\<open>keysChanged\<close>.
\<close>

theorem absent_secret_is_one_difference:
  assumes "stored (cluster r) (Namespace secret, Name secret) = None"
  shows "differences_found e (cluster r) verbose secret = 1
       \<and> secretsChanged (upload_secret e force doit verbose secret r) = secretsChanged r + 1
       \<and> keysChanged (upload_secret e force doit verbose secret r) = keysChanged r + 1
       \<and> take (length (stdout r) + 1) (stdout (upload_secret e force doit verbose secret r))
           = stdout r @ [''secret '' @ Namespace secret @ ''/'' @ Name secret @ '' is missing'']"
proof -
  have "isl (FromRemoteSecret e (cluster r) (Namespace secret) (Name secret) (Type secret))"
    using assms by (rule absent_is_missing)
  then obtain err where miss: "FromRemoteSecret e (cluster r) (Namespace secret) (Name secret)
                            (Type secret) = Inl err"
    by (auto simp: isl_def)
  then have d: "differences_found e (cluster r) verbose secret = 1"
    by (simp add: differences_found_def)
  have "take (length (stdout r) + 1) (stdout (upload_secret e force doit verbose secret r))
           = stdout r @ [''secret '' @ Namespace secret @ ''/'' @ Name secret @ '' is missing'']"
    using miss
    by (auto simp: upload_secret_def Let_def FromOnsiteSecret_def
        split: sum.splits prod.splits option.splits)
  with d show ?thesis by (simp add: upload_secret_counts)
qed

theorem absent_secret_is_one_difference_witness:
  "stored (cluster (initial empty_cluster)) (Namespace app_secret, Name app_secret) = None
   \<and> keysChanged (upload_secret (sample_env [app_secret]) False False False app_secret
                    (initial empty_cluster)) = 1
   \<and> secretsChanged (upload_secret (sample_env [app_secret]) False False False app_secret
                       (initial empty_cluster)) = 1
   \<and> stdout (upload_secret (sample_env [app_secret]) False False False app_secret
               (initial empty_cluster)) = [''secret live/app is missing'']"
proof -
  have a: "stored (cluster (initial empty_cluster)) (Namespace app_secret, Name app_secret) = None"
    by (simp add: initial_def empty_cluster_def)
  have s: "stdout (upload_secret (sample_env [app_secret]) False False False app_secret
               (initial empty_cluster)) = [''secret live/app is missing'']"
    by code_simp
  from absent_secret_is_one_difference [OF a, of "sample_env [app_secret]" False False False] a s
  show ?thesis by (simp add: initial_def)
qed

text \<open>
  Claim C3, as stated, fails: an upload batch in which the conversion of one secret
  fails records the error, prints \<open>completed with 1 error(s)\<close> and exits with code 0.
\<close>

theorem upload_with_errors_exits_zero:
  "errors (snd (main (sample_env [app_secret, registry_secret]) empty_cluster commit [''upload'']))
     = [''live/registry: failed to build docker config: docker-username is required for docker-registry secrets'']
   \<and> last (stdout (snd (main (sample_env [app_secret, registry_secret]) empty_cluster commit
                           [''upload''])))
     = ''completed with 1 error(s)''
   \<and> fst (main (sample_env [app_secret, registry_secret]) empty_cluster commit [''upload'']) = 0"
  by code_simp

text \<open>
  Claim C3, amended. The process exits with code 1 when no command or an unknown
  command is given, and when the command returns an error: for \<^verbatim>\<open>upload\<close>, and for
  \<^verbatim>\<open>diff\<close> on one path, exactly when the secrets of the path cannot be loaded; for
  \<^verbatim>\<open>diff\<close> on two paths when either path cannot be loaded; for \<^verbatim>\<open>manifest\<close> when the
  path cannot be loaded or a secret cannot be converted, which ends the command.
  Otherwise it exits with code 0: the errors recorded for single secrets during an
  upload batch are counted in the summary and do not change the exit code.
\<close>

theorem exit_code_of_main:
  "fst (main e k fl []) = 1
   \<and> (c \<notin> {''upload'', ''download'', ''diff'', ''manifest''} \<longrightarrow> fst (main e k fl (c # rest)) = 1)
   \<and> fst (main e k fl (''upload'' # rest))
       = (if isl (LoadSecretsFromPath e (first_path rest)) then 1 else 0)
   \<and> fst (main e k fl (''diff'' # rest))
       = (if isl (LoadSecretsFromPath e (first_path rest))
             \<or> (second_path rest \<noteq> [] \<and> isl (LoadSecretsFromPath e (second_path rest)))
          then 1 else 0)
   \<and> fst (main e k fl (''download'' # rest))
       = (if handleDownload e (first_path rest) = None then 0 else 1)
   \<and> fst (main e k fl (''manifest'' # rest))
       = (case LoadSecretsFromPath e (first_path rest) of
            Inl err \<Rightarrow> 1
          | Inr secrets \<Rightarrow>
              if list_ex (\<lambda>s. isl (ToKubernetesData e s)) secrets then 1 else 0)"
proof (intro conjI impI)
  show "fst (main e k fl []) = 1" by (simp add: main_def)
next
  assume "c \<notin> {''upload'', ''download'', ''diff'', ''manifest''}"
  then show "fst (main e k fl (c # rest)) = 1" by (simp add: main_def Let_def)
next
  have "fst (main e k fl [''upload'', first_path rest, second_path rest])
       = (if isl (LoadSecretsFromPath e (first_path rest)) then 1 else 0)"
    using upload_error_iff_load [of e k "first_path rest" "force_flag fl" "doit_flag fl"
        "verbose_flag fl"]
    by (auto simp add: main_def Let_def handleUpload_def split: prod.splits option.splits)
  then show "fst (main e k fl (''upload'' # rest))
       = (if isl (LoadSecretsFromPath e (first_path rest)) then 1 else 0)"
    by (simp only: main_paths [of e k fl "''upload''" rest])
next
  have h: "fst (handleDiff e k (first_path rest) (second_path rest) (verbose_flag fl)) = None
           \<longleftrightarrow> \<not> (isl (LoadSecretsFromPath e (first_path rest))
             \<or> (second_path rest \<noteq> [] \<and> isl (LoadSecretsFromPath e (second_path rest))))"
    using upload_error_iff_load [of e k "first_path rest" False False "verbose_flag fl"]
      diffLocalVsLocal_error_iff_load [of e "first_path rest" "second_path rest" "verbose_flag fl"]
    by (auto simp: handleDiff_def split: prod.splits)
  have "fst (main e k fl [''diff'', first_path rest, second_path rest])
       = (if isl (LoadSecretsFromPath e (first_path rest))
             \<or> (second_path rest \<noteq> [] \<and> isl (LoadSecretsFromPath e (second_path rest)))
          then 1 else 0)"
    using h by (auto simp add: main_def Let_def split: prod.splits option.splits)
  then show "fst (main e k fl (''diff'' # rest))
       = (if isl (LoadSecretsFromPath e (first_path rest))
             \<or> (second_path rest \<noteq> [] \<and> isl (LoadSecretsFromPath e (second_path rest)))
          then 1 else 0)"
    by (simp only: main_paths [of e k fl "''diff''" rest])
next
  have "fst (main e k fl [''download'', first_path rest, second_path rest])
       = (if handleDownload e (first_path rest) = None then 0 else 1)"
    by (simp add: main_def Let_def split: option.splits)
  then show "fst (main e k fl (''download'' # rest))
       = (if handleDownload e (first_path rest) = None then 0 else 1)"
    by (simp only: main_paths [of e k fl "''download''" rest])
next
  have "fst (main e k fl [''manifest'', first_path rest, second_path rest])
       = (case LoadSecretsFromPath e (first_path rest) of
            Inl err \<Rightarrow> 1
          | Inr secrets \<Rightarrow>
              if list_ex (\<lambda>s. isl (ToKubernetesData e s)) secrets then 1 else 0)"
    using handleManifest_error [of e "first_path rest"]
    by (auto simp add: main_def Let_def split: prod.splits option.splits sum.splits)
  then show "fst (main e k fl (''manifest'' # rest))
       = (case LoadSecretsFromPath e (first_path rest) of
            Inl err \<Rightarrow> 1
          | Inr secrets \<Rightarrow>
              if list_ex (\<lambda>s. isl (ToKubernetesData e s)) secrets then 1 else 0)"
    by (simp only: main_paths [of e k fl "''manifest''" rest])
qed

theorem exit_code_of_main_witness:
  "fst (main (sample_env [app_secret, registry_secret]) empty_cluster commit [''status'']) = 1
   \<and> fst (main (sample_env [app_secret, registry_secret]) empty_cluster commit
            [''upload'', ''nowhere'']) = 1
   \<and> fst (main (sample_env [app_secret, registry_secret]) empty_cluster commit [''upload'']) = 0"
proof -
  let ?e = "sample_env [app_secret, registry_secret]"
  have c: "''status'' \<notin> {''upload'', ''download'', ''diff'', ''manifest''}" by simp
  have l1: "isl (LoadSecretsFromPath ?e (first_path [''nowhere'']))"
    and l2: "\<not> isl (LoadSecretsFromPath ?e (first_path []))"
    by (simp_all add: sample_env_def loads_def first_path_def)
  from exit_code_of_main [of ?e empty_cluster commit "''status''" "[]"]
    exit_code_of_main [of ?e empty_cluster commit "''status''" "[''nowhere'']"]
    c l1 l2
  show ?thesis by simp
qed

end
